theory Spec2Isabelle
  imports Main "HOL-Library.Word" "HOL-Library.Monad_Syntax"
begin

unbundle bit_operations_syntax

section \<open>ata_id: identify transport, probe sequencing and identify-block decoding\<close>

text \<open>
  Shallow embedding of \<^verbatim>\<open>src/udev/ata_id/ata_id.c\<close>.  Bytes are \<open>8 word\<close>, the
  \<^verbatim>\<open>unsigned\<close> word offset is a \<open>32 word\<close>, \<^verbatim>\<open>size_t\<close> is a \<open>64 word\<close>
  (a 64-bit host), identify words are \<open>16 word\<close>.
\<close>

type_synonym byte = "8 word"

subsection \<open>String recovery (\<^verbatim>\<open>disk_identify_get_string\<close>, lines 260--287)\<close>

text \<open>
  The function reads through \<^verbatim>\<open>identify\<close> and writes through \<^verbatim>\<open>dest\<close>; the in-place
  caller \<^verbatim>\<open>disk_identify_fixup_string\<close> makes the two pointers alias.  Memory is therefore
  one store from addresses to bytes, and both pointers are addresses into it.

  The \<^verbatim>\<open>while (dest_len > 0)\<close> loop need not terminate (the counter is unsigned and
  is decremented by 2), so the loop is a partial function: \<open>None\<close> means that it runs
  forever.  One iteration reads both bytes of the word at \<^verbatim>\<open>offset_words\<close> into the
  \<^verbatim>\<open>unsigned\<close> locals \<^verbatim>\<open>c1\<close>, \<^verbatim>\<open>c2\<close>, then stores them (narrowed to a byte) at
  \<^verbatim>\<open>dest\<close> and \<^verbatim>\<open>dest + 1\<close>.  The index \<^verbatim>\<open>offset_words * 2 + 1\<close> is computed in
  32-bit unsigned arithmetic.  The loop returns its final state: memory,
  \<^verbatim>\<open>offset_words\<close>, \<^verbatim>\<open>dest\<close> and \<^verbatim>\<open>dest_len\<close>.
\<close>

type_synonym memory = "nat \<Rightarrow> byte"

partial_function (option) get_string_loop ::
  "memory \<Rightarrow> nat \<Rightarrow> 32 word \<Rightarrow> nat \<Rightarrow> 64 word \<Rightarrow> (memory \<times> 32 word \<times> nat \<times> 64 word) option" where
  "get_string_loop m identify offset_words dest dest_len =
     (if dest_len > 0 then
        (let c1 = (ucast (m (identify + unat (offset_words * 2 + 1))) :: 32 word);
             c2 = (ucast (m (identify + unat (offset_words * 2))) :: 32 word);
             m1 = m(dest := ucast c1);
             dest1 = dest + 1;
             m2 = m1(dest1 := ucast c2);
             dest2 = dest1 + 1
         in get_string_loop m2 identify (offset_words + 1) dest2 (dest_len - 2))
      else Some (m, offset_words, dest, dest_len))"

text \<open>
  \<^verbatim>\<open>disk_identify_get_string\<close> is the loop, seen through the memory it leaves;
  \<^verbatim>\<open>disk_identify_fixup_string\<close> calls it with
  \<^verbatim>\<open>dest = (char *) identify + offset_words * 2\<close>.
\<close>

definition disk_identify_get_string ::
  "memory \<Rightarrow> nat \<Rightarrow> 32 word \<Rightarrow> nat \<Rightarrow> 64 word \<Rightarrow> memory option" where
  "disk_identify_get_string m identify offset_words dest dest_len =
     map_option fst (get_string_loop m identify offset_words dest dest_len)"

definition disk_identify_fixup_string ::
  "memory \<Rightarrow> nat \<Rightarrow> 32 word \<Rightarrow> 64 word \<Rightarrow> memory option" where
  "disk_identify_fixup_string m identify offset_words len =
     disk_identify_get_string m identify offset_words (identify + unat (offset_words * 2)) len"

text \<open>The three string fix-ups of \<^verbatim>\<open>main\<close> (lines 453--455): serial, fwrev, model.\<close>

definition main_fixup_strings :: "memory \<Rightarrow> nat \<Rightarrow> memory option" where
  "main_fixup_strings m identify =
     do {
       m1 \<leftarrow> disk_identify_fixup_string m identify 10 20;
       m2 \<leftarrow> disk_identify_fixup_string m1 identify 23 8;
       disk_identify_fixup_string m2 identify 27 40
     }"

text \<open>
  For the proofs: \<open>swap_n n\<close> is the memory after \<open>n\<close> iterations of the loop body, and
  \<open>swap_pairs base n\<close> exchanges the two bytes of each of the \<open>n\<close> words that start at
  address \<open>base\<close>.
\<close>

fun swap_n :: "nat \<Rightarrow> memory \<Rightarrow> nat \<Rightarrow> 32 word \<Rightarrow> nat \<Rightarrow> memory" where
  "swap_n 0 m identify ow dest = m"
| "swap_n (Suc n) m identify ow dest =
     swap_n n
       (m(dest := m (identify + unat (ow * 2 + 1)), dest + 1 := m (identify + unat (ow * 2))))
       identify (ow + 1) (dest + 2)"

definition swap_pairs :: "nat \<Rightarrow> nat \<Rightarrow> memory \<Rightarrow> memory" where
  "swap_pairs base n m =
     (\<lambda>a. if base \<le> a \<and> a < base + 2 * n
          then (if even (a - base) then m (a + 1) else m (a - 1))
          else m a)"

subsection \<open>The SG_IO submission interface\<close>

text \<open>
  The three command functions talk to the kernel through \<^verbatim>\<open>ioctl(fd, SG_IO, ...)\<close>, first
  with a \<^verbatim>\<open>struct sg_io_v4\<close> and, when that fails with \<^verbatim>\<open>EINVAL\<close>, with a
  \<^verbatim>\<open>struct sg_io_hdr\<close> (version 3).  The device behind the file descriptor is a function
  from a submitted request to the kernel's reply.  A request carries the command descriptor
  block, the transfer length and the contents of the data-in buffer the kernel is pointed at;
  a reply carries the \<^verbatim>\<open>ioctl\<close> return value, the \<^verbatim>\<open>errno\<close> it sets when it fails, the
  bytes transferred into the data buffer (a prefix; the rest of the buffer keeps what it held),
  the sense bytes written, and the three status fields (\<^verbatim>\<open>device_status\<close>,
  \<^verbatim>\<open>transport_status\<close>, \<^verbatim>\<open>driver_status\<close> of version 4; \<^verbatim>\<open>status\<close>,
  \<^verbatim>\<open>host_status\<close>, \<^verbatim>\<open>driver_status\<close> of version 3).
\<close>

definition EIO :: int where
  "EIO = 5"

definition EINVAL :: int where
  "EINVAL = 22"

datatype sg_version = SG_V4 | SG_V3

record sg_request =
  sg_version :: sg_version
  sg_cdb :: "byte list"
  sg_din_xfer_len :: "32 word"
  sg_din :: "byte list"

record sg_reply =
  io_ret :: int
  io_errno :: int
  io_data :: "byte list"
  io_sense :: "byte list"
  io_status :: "32 word"
  io_transport_status :: "32 word"
  io_driver_status :: "32 word"

type_synonym device = "sg_request \<Rightarrow> sg_reply"

text \<open>A transfer overwrites the start of a buffer and never grows it.\<close>

definition store_bytes :: "byte list \<Rightarrow> byte list \<Rightarrow> byte list" where
  "store_bytes data b = take (length b) data @ drop (length data) b"

definition memzero :: "byte list \<Rightarrow> nat \<Rightarrow> byte list" where
  "memzero b n = replicate n 0 @ drop n b"

text \<open>
  What a command function leaves behind: its return value, \<^verbatim>\<open>errno\<close>, the data buffer,
  the local \<^verbatim>\<open>sense[32]\<close> array as it stands on return, and the requests it submitted, in
  order.
\<close>

record cmd_result =
  cmd_ret :: int
  cmd_errno :: int
  cmd_buf :: "byte list"
  cmd_sense :: "byte list"
  cmd_trace :: "sg_request list"

text \<open>The command descriptor blocks (the local \<^verbatim>\<open>cdb\<close> arrays, lines 39, 107 and 179).\<close>

definition inquiry_cdb :: "64 word \<Rightarrow> byte list" where
  "inquiry_cdb buf_len = [0x12, 0, 0, ucast (drop_bit 8 buf_len), ucast (buf_len AND 0xff), 0]"

definition identify_cdb :: "byte list" where
  "identify_cdb = [0xa1, push_bit 1 4, 0x2e, 0, 1, 0, 0, 0, 0 AND 0x4F, 0xEC, 0, 0]"

definition identify_packet_device_cdb :: "byte list" where
  "identify_packet_device_cdb =
     [0x85, push_bit 1 4, 0x2e, 0, 0, 0, 1, 0, 0, 0, 0, 0, 0, 0, 0xA1, 0]"

text \<open>
  \<^verbatim>\<open>disk_scsi_inquiry_command\<close> (lines 34--100).  After a successful version 3 retry the
  code falls out of the \<^verbatim>\<open>if (ret != 0)\<close> block into the check of the version 4 status
  fields, as written.  A successful \<^verbatim>\<open>ioctl\<close> leaves \<^verbatim>\<open>errno\<close> alone, so after the retry
  \<^verbatim>\<open>errno\<close> is still the \<^verbatim>\<open>EINVAL\<close> of the first attempt.
\<close>

definition disk_scsi_inquiry_command ::
  "device \<Rightarrow> int \<Rightarrow> byte list \<Rightarrow> 64 word \<Rightarrow> cmd_result" where
  "disk_scsi_inquiry_command dev e buf0 buf_len =
     (let cdb = inquiry_cdb buf_len;
          sense0 = replicate 32 0;
          rq4 = \<lparr>sg_version = SG_V4, sg_cdb = cdb, sg_din_xfer_len = ucast buf_len, sg_din = buf0\<rparr>;
          io_v4 = dev rq4;
          buf1 = store_bytes (take (unat buf_len) (io_data io_v4)) buf0;
          sense1 = store_bytes (io_sense io_v4) sense0
      in if io_ret io_v4 \<noteq> 0 then
           (if io_errno io_v4 = EINVAL then
              (let rq3 = \<lparr>sg_version = SG_V3, sg_cdb = cdb, sg_din_xfer_len = ucast buf_len,
                             sg_din = buf1\<rparr>;
                   io_hdr = dev rq3;
                   buf2 = store_bytes (take (unat buf_len) (io_data io_hdr)) buf1;
                   sense2 = store_bytes (io_sense io_hdr) sense1
               in if io_ret io_hdr \<noteq> 0 then
                    \<lparr>cmd_ret = io_ret io_hdr, cmd_errno = io_errno io_hdr, cmd_buf = buf2,
                     cmd_sense = sense2, cmd_trace = [rq4, rq3]\<rparr>
                  else if \<not> (io_status io_hdr = 0 \<and> io_transport_status io_hdr = 0 \<and>
                              io_driver_status io_hdr = 0) then
                    \<lparr>cmd_ret = - 1, cmd_errno = EIO, cmd_buf = buf2, cmd_sense = sense2,
                     cmd_trace = [rq4, rq3]\<rparr>
                  else if \<not> (io_status io_v4 = 0 \<and> io_transport_status io_v4 = 0 \<and>
                              io_driver_status io_v4 = 0) then
                    \<lparr>cmd_ret = - 1, cmd_errno = EIO, cmd_buf = buf2, cmd_sense = sense2,
                     cmd_trace = [rq4, rq3]\<rparr>
                  else
                    \<lparr>cmd_ret = 0, cmd_errno = io_errno io_v4, cmd_buf = buf2, cmd_sense = sense2,
                     cmd_trace = [rq4, rq3]\<rparr>)
            else
              \<lparr>cmd_ret = io_ret io_v4, cmd_errno = io_errno io_v4, cmd_buf = buf1,
               cmd_sense = sense1, cmd_trace = [rq4]\<rparr>)
         else if \<not> (io_status io_v4 = 0 \<and> io_transport_status io_v4 = 0 \<and>
                     io_driver_status io_v4 = 0) then
           \<lparr>cmd_ret = - 1, cmd_errno = EIO, cmd_buf = buf1, cmd_sense = sense1, cmd_trace = [rq4]\<rparr>
         else
           \<lparr>cmd_ret = 0, cmd_errno = e, cmd_buf = buf1, cmd_sense = sense1, cmd_trace = [rq4]\<rparr>)"

text \<open>
  \<^verbatim>\<open>disk_identify_command\<close> (lines 102--172).  The sense check of lines 165--171 is
  reached from the version 4 path and from the version 3 retry; \<open>check\<close> is that tail, with
  \<^verbatim>\<open>desc = sense + 8\<close>.
\<close>

definition disk_identify_command ::
  "device \<Rightarrow> int \<Rightarrow> byte list \<Rightarrow> 64 word \<Rightarrow> cmd_result" where
  "disk_identify_command dev e buf0 buf_len =
     (let cdb = identify_cdb;
          sense0 = replicate 32 0;
          rq4 = \<lparr>sg_version = SG_V4, sg_cdb = cdb, sg_din_xfer_len = ucast buf_len, sg_din = buf0\<rparr>;
          io_v4 = dev rq4;
          buf1 = store_bytes (take (unat buf_len) (io_data io_v4)) buf0;
          sense1 = store_bytes (io_sense io_v4) sense0;
          check = (\<lambda>e' b s t.
            (let desc = drop 8 s
             in if \<not> (s ! 0 = 0x72 \<and> desc ! 0 = 0x9 \<and> desc ! 1 = 0x0c) \<and>
                   \<not> (s ! 0 = 0x70 \<and> s ! 12 = 0x00 \<and> s ! 13 = 0x1d) then
                  \<lparr>cmd_ret = - 1, cmd_errno = EIO, cmd_buf = b, cmd_sense = s, cmd_trace = t\<rparr>
                else
                  \<lparr>cmd_ret = 0, cmd_errno = e', cmd_buf = b, cmd_sense = s, cmd_trace = t\<rparr>))
      in if io_ret io_v4 \<noteq> 0 then
           (if io_errno io_v4 = EINVAL then
              (let rq3 = \<lparr>sg_version = SG_V3, sg_cdb = cdb, sg_din_xfer_len = ucast buf_len,
                             sg_din = buf1\<rparr>;
                   io_hdr = dev rq3;
                   buf2 = store_bytes (take (unat buf_len) (io_data io_hdr)) buf1;
                   sense2 = store_bytes (io_sense io_hdr) sense1
               in if io_ret io_hdr \<noteq> 0 then
                    \<lparr>cmd_ret = io_ret io_hdr, cmd_errno = io_errno io_hdr, cmd_buf = buf2,
                     cmd_sense = sense2, cmd_trace = [rq4, rq3]\<rparr>
                  else check (io_errno io_v4) buf2 sense2 [rq4, rq3])
            else
              \<lparr>cmd_ret = io_ret io_v4, cmd_errno = io_errno io_v4, cmd_buf = buf1,
               cmd_sense = sense1, cmd_trace = [rq4]\<rparr>)
         else check e buf1 sense1 [rq4])"

text \<open>
  \<^verbatim>\<open>disk_identify_packet_device_command\<close> (lines 174--249): the same submission with the
  16-byte descriptor, and a sense check that knows the descriptor format only.
\<close>

definition disk_identify_packet_device_command ::
  "device \<Rightarrow> int \<Rightarrow> byte list \<Rightarrow> 64 word \<Rightarrow> cmd_result" where
  "disk_identify_packet_device_command dev e buf0 buf_len =
     (let cdb = identify_packet_device_cdb;
          sense0 = replicate 32 0;
          rq4 = \<lparr>sg_version = SG_V4, sg_cdb = cdb, sg_din_xfer_len = ucast buf_len, sg_din = buf0\<rparr>;
          io_v4 = dev rq4;
          buf1 = store_bytes (take (unat buf_len) (io_data io_v4)) buf0;
          sense1 = store_bytes (io_sense io_v4) sense0;
          check = (\<lambda>e' b s t.
            (let desc = drop 8 s
             in if \<not> (s ! 0 = 0x72 \<and> desc ! 0 = 0x9 \<and> desc ! 1 = 0x0c) then
                  \<lparr>cmd_ret = - 1, cmd_errno = EIO, cmd_buf = b, cmd_sense = s, cmd_trace = t\<rparr>
                else
                  \<lparr>cmd_ret = 0, cmd_errno = e', cmd_buf = b, cmd_sense = s, cmd_trace = t\<rparr>))
      in if io_ret io_v4 \<noteq> 0 then
           (if io_errno io_v4 = EINVAL then
              (let rq3 = \<lparr>sg_version = SG_V3, sg_cdb = cdb, sg_din_xfer_len = ucast buf_len,
                             sg_din = buf1\<rparr>;
                   io_hdr = dev rq3;
                   buf2 = store_bytes (take (unat buf_len) (io_data io_hdr)) buf1;
                   sense2 = store_bytes (io_sense io_hdr) sense1
               in if io_ret io_hdr \<noteq> 0 then
                    \<lparr>cmd_ret = io_ret io_hdr, cmd_errno = io_errno io_hdr, cmd_buf = buf2,
                     cmd_sense = sense2, cmd_trace = [rq4, rq3]\<rparr>
                  else check (io_errno io_v4) buf2 sense2 [rq4, rq3])
            else
              \<lparr>cmd_ret = io_ret io_v4, cmd_errno = io_errno io_v4, cmd_buf = buf1,
               cmd_sense = sense1, cmd_trace = [rq4]\<rparr>)
         else check e buf1 sense1 [rq4])"

text \<open>
  The two sense encodings, in the words of the interface description: descriptor format
  (\<open>sense[0] = 0x72\<close>, \<open>sense[8] = 0x09\<close>, \<open>sense[9] = 0x0C\<close>) and fixed format
  (\<open>sense[0] = 0x70\<close>, \<open>sense[12] = 0x00\<close>, \<open>sense[13] = 0x1D\<close>).
\<close>

definition sense_descriptor_format :: "byte list \<Rightarrow> bool" where
  "sense_descriptor_format s = (s ! 0 = 0x72 \<and> s ! 8 = 0x09 \<and> s ! 9 = 0x0C)"

definition sense_fixed_format :: "byte list \<Rightarrow> bool" where
  "sense_fixed_format s = (s ! 0 = 0x70 \<and> s ! 12 = 0x00 \<and> s ! 13 = 0x1D)"

subsection \<open>The probe sequencer (\<^verbatim>\<open>disk_identify\<close>, lines 311--388)\<close>

text \<open>
  The scan of lines 370--376: \<^verbatim>\<open>all_nul_bytes\<close> starts at 1 and is cleared at the first
  non-zero byte among the 512.
\<close>

function check_nul_bytes :: "byte list \<Rightarrow> nat \<Rightarrow> int" where
  "check_nul_bytes out_identify n =
     (if n < 512 then
        (if out_identify ! n \<noteq> 0 then 0 else check_nul_bytes out_identify (n + 1))
      else 1)"
  by pat_completeness auto
termination
  by (relation "measure (\<lambda>(out_identify, n). 512 - n)") auto

declare check_nul_bytes.simps [simp del]

record identify_result =
  id_ret :: int
  id_errno :: int
  out_identify :: "byte list"
  is_packet_device :: int
  id_trace :: "sg_request list"

text \<open>
  \<^verbatim>\<open>disk_identify\<close>.  The local \<^verbatim>\<open>inquiry_buf[36]\<close> has no initialiser: what it holds
  when the function starts is an input of the model.  \<^verbatim>\<open>out_identify\<close> is the caller's
  512-byte array, zeroed by \<^verbatim>\<open>memzero\<close> on entry.  \<open>check_nul\<close> is the code from the label
  \<^verbatim>\<open>check_nul_bytes\<close> to the end; the branches that \<^verbatim>\<open>goto out\<close> build the result
  directly.
\<close>

definition disk_identify :: "device \<Rightarrow> int \<Rightarrow> byte list \<Rightarrow> byte list \<Rightarrow> identify_result" where
  "disk_identify dev e inquiry_buf out_identify0 =
     (let out1 = memzero out_identify0 512;
          inq = disk_scsi_inquiry_command dev e inquiry_buf 36;
          check_nul = (\<lambda>r e' out ipd t.
            if check_nul_bytes out 0 \<noteq> 0 then
              \<lparr>id_ret = - 1, id_errno = EIO, out_identify = out, is_packet_device = ipd,
               id_trace = t\<rparr>
            else
              \<lparr>id_ret = r, id_errno = e', out_identify = out, is_packet_device = ipd,
               id_trace = t\<rparr>)
      in if cmd_ret inq \<noteq> 0 then
           \<lparr>id_ret = cmd_ret inq, id_errno = cmd_errno inq, out_identify = out1,
            is_packet_device = 0, id_trace = cmd_trace inq\<rparr>
         else
           (let peripheral_device_type = (cmd_buf inq ! 0) AND 0x1f
            in if peripheral_device_type = 0x05 then
                 (let c = disk_identify_packet_device_command dev (cmd_errno inq) out1 512
                  in check_nul (cmd_ret c) (cmd_errno c) (cmd_buf c) 1 (cmd_trace inq @ cmd_trace c))
               else if \<not> (peripheral_device_type = 0x00 \<or> peripheral_device_type = 0x14) then
                 \<lparr>id_ret = - 1, id_errno = EIO, out_identify = out1, is_packet_device = 0,
                  id_trace = cmd_trace inq\<rparr>
               else
                 (let c = disk_identify_command dev (cmd_errno inq) out1 512
                  in if cmd_ret c \<noteq> 0 then
                       \<lparr>id_ret = cmd_ret c, id_errno = cmd_errno c, out_identify = cmd_buf c,
                        is_packet_device = 0, id_trace = cmd_trace inq @ cmd_trace c\<rparr>
                     else
                       check_nul (cmd_ret c) (cmd_errno c) (cmd_buf c) 0
                         (cmd_trace inq @ cmd_trace c))))"

text \<open>
  How \<^verbatim>\<open>main\<close> obtains the identify data (lines 448 and 476--482): from
  \<^verbatim>\<open>disk_identify\<close>, and when that fails from the legacy \<^verbatim>\<open>HDIO_GET_IDENTITY\<close> ioctl,
  whose return value is \<open>hdio_ret\<close>; when both fail \<^verbatim>\<open>main\<close> returns 2.
\<close>

datatype identify_source = Pass_Through | Legacy_Identity | Exit_2

definition main_identify :: "device \<Rightarrow> int \<Rightarrow> int \<Rightarrow> byte list \<Rightarrow> byte list \<Rightarrow> identify_source" where
  "main_identify dev hdio_ret e inquiry_buf identify_byte =
     (if id_ret (disk_identify dev e inquiry_buf identify_byte) = 0 then Pass_Through
      else if hdio_ret \<noteq> 0 then Exit_2
      else Legacy_Identity)"

subsection \<open>Classification and export (\<^verbatim>\<open>main\<close>, lines 494--648)\<close>

text \<open>
  \<^verbatim>\<open>main\<close> prints through \<^verbatim>\<open>printf\<close>; the output is modelled as the list of lines
  printed, without the newline.  \<open>dec\<close> is \<^verbatim>\<open>%d\<close> for a non-negative argument and
  \<open>hex\<close> is \<^verbatim>\<open>PRIx64\<close>.  The fields of \<^verbatim>\<open>struct hd_driveid\<close> that \<^verbatim>\<open>main\<close> reads
  are the fields of the record \<open>hd_driveid\<close>, all \<^verbatim>\<open>unsigned short\<close> (the
  variable \<^verbatim>\<open>id\<close> of the source is \<open>drive\<close> here); \<open>wyde\<close> is the
  16-bit view \<^verbatim>\<open>identify.wyde\<close> of the identify block.  The strings \<^verbatim>\<open>model\<close>,
  \<^verbatim>\<open>model_enc\<close>, \<^verbatim>\<open>revision\<close> and \<^verbatim>\<open>serial\<close> come out of
  \<^verbatim>\<open>udev_replace_whitespace\<close>, \<^verbatim>\<open>udev_replace_chars\<close> and
  \<^verbatim>\<open>encode_devnode_name\<close>, which are not part of this file: they are parameters.
\<close>

fun dec :: "nat \<Rightarrow> string" where
  "dec n = (if n < 10 then [''0123456789'' ! n]
            else dec (n div 10) @ [''0123456789'' ! (n mod 10)])"

declare dec.simps [simp del]

fun hex :: "nat \<Rightarrow> string" where
  "hex n = (if n < 16 then [''0123456789abcdef'' ! n]
            else hex (n div 16) @ [''0123456789abcdef'' ! (n mod 16)])"

declare hex.simps [simp del]

record hd_driveid =
  config :: "16 word"
  command_set_1 :: "16 word"
  command_set_2 :: "16 word"
  cfs_enable_1 :: "16 word"
  cfs_enable_2 :: "16 word"
  trseuc :: "16 word"
  trsEuc :: "16 word"
  CurAPMvalues :: "16 word"
  acoustic :: "16 word"
  dlf :: "16 word"

text \<open>Lines 496--519: \<^verbatim>\<open>ID_ATA\<close>, \<^verbatim>\<open>ID_TYPE\<close>, \<^verbatim>\<open>ID_BUS\<close>.\<close>

definition export_type_lines :: "hd_driveid \<Rightarrow> string list" where
  "export_type_lines drive =
     [''ID_ATA=1''] @
     (if (drop_bit 8 (config drive)) AND 0x80 \<noteq> 0 then
        (let t = (drop_bit 8 (config drive)) AND 0x1f
         in if t = 0 then [''ID_TYPE=cd'']
            else if t = 1 then [''ID_TYPE=tape'']
            else if t = 5 then [''ID_TYPE=cd'']
            else if t = 7 then [''ID_TYPE=optical'']
            else [''ID_TYPE=generic''])
      else [''ID_TYPE=disk'']) @
     [''ID_BUS=ata'']"

text \<open>Lines 520--527: model, revision and serial.\<close>

definition export_string_lines :: "string \<Rightarrow> string \<Rightarrow> string \<Rightarrow> string \<Rightarrow> string list" where
  "export_string_lines model model_enc revision serial =
     [''ID_MODEL='' @ model, ''ID_MODEL_ENC='' @ model_enc, ''ID_REVISION='' @ revision] @
     (if serial \<noteq> [] then
        [''ID_SERIAL='' @ model @ ''_'' @ serial, ''ID_SERIAL_SHORT='' @ serial]
      else [''ID_SERIAL='' @ model])"

text \<open>
  Lines 529--586: the feature flags, one \<^verbatim>\<open>if\<close> block after the other.  Each block is
  a definition of its own; \<open>export_feature_lines\<close> runs them in source order.
\<close>

definition export_write_cache_lines :: "hd_driveid \<Rightarrow> string list" where
  "export_write_cache_lines drive =
     (if command_set_1 drive AND push_bit 5 1 \<noteq> 0 then
        [''ID_ATA_WRITE_CACHE=1'',
         ''ID_ATA_WRITE_CACHE_ENABLED='' @
           dec (if cfs_enable_1 drive AND push_bit 5 1 \<noteq> 0 then 1 else 0)]
      else [])"

definition export_hpa_lines :: "hd_driveid \<Rightarrow> string list" where
  "export_hpa_lines drive =
     (if command_set_1 drive AND push_bit 10 1 \<noteq> 0 then
        [''ID_ATA_FEATURE_SET_HPA=1'',
         ''ID_ATA_FEATURE_SET_HPA_ENABLED='' @
           dec (if cfs_enable_1 drive AND push_bit 10 1 \<noteq> 0 then 1 else 0)]
      else [])"

definition export_pm_lines :: "hd_driveid \<Rightarrow> string list" where
  "export_pm_lines drive =
     (if command_set_1 drive AND push_bit 3 1 \<noteq> 0 then
        [''ID_ATA_FEATURE_SET_PM=1'',
         ''ID_ATA_FEATURE_SET_PM_ENABLED='' @
           dec (if cfs_enable_1 drive AND push_bit 3 1 \<noteq> 0 then 1 else 0)]
      else [])"

definition export_security_lines :: "hd_driveid \<Rightarrow> string list" where
  "export_security_lines drive =
     (if command_set_1 drive AND push_bit 1 1 \<noteq> 0 then
        [''ID_ATA_FEATURE_SET_SECURITY=1'',
         ''ID_ATA_FEATURE_SET_SECURITY_ENABLED='' @
           dec (if cfs_enable_1 drive AND push_bit 1 1 \<noteq> 0 then 1 else 0),
         ''ID_ATA_FEATURE_SET_SECURITY_ERASE_UNIT_MIN='' @ dec (unat (trseuc drive) * 2)] @
        (if cfs_enable_1 drive AND push_bit 1 1 \<noteq> 0 then
           (if dlf drive AND push_bit 8 1 \<noteq> 0 then
              [''ID_ATA_FEATURE_SET_SECURITY_LEVEL=maximum'']
            else [''ID_ATA_FEATURE_SET_SECURITY_LEVEL=high''])
         else []) @
        (if dlf drive AND push_bit 5 1 \<noteq> 0 then
           [''ID_ATA_FEATURE_SET_SECURITY_ENHANCED_ERASE_UNIT_MIN='' @
              dec (unat (trsEuc drive) * 2)]
         else []) @
        (if dlf drive AND push_bit 4 1 \<noteq> 0 then [''ID_ATA_FEATURE_SET_SECURITY_EXPIRE=1'']
         else []) @
        (if dlf drive AND push_bit 3 1 \<noteq> 0 then [''ID_ATA_FEATURE_SET_SECURITY_FROZEN=1'']
         else []) @
        (if dlf drive AND push_bit 2 1 \<noteq> 0 then [''ID_ATA_FEATURE_SET_SECURITY_LOCKED=1'']
         else [])
      else [])"

definition export_smart_lines :: "hd_driveid \<Rightarrow> string list" where
  "export_smart_lines drive =
     (if command_set_1 drive AND push_bit 0 1 \<noteq> 0 then
        [''ID_ATA_FEATURE_SET_SMART=1'',
         ''ID_ATA_FEATURE_SET_SMART_ENABLED='' @
           dec (if cfs_enable_1 drive AND push_bit 0 1 \<noteq> 0 then 1 else 0)]
      else [])"

definition export_aam_lines :: "hd_driveid \<Rightarrow> string list" where
  "export_aam_lines drive =
     (if command_set_2 drive AND push_bit 9 1 \<noteq> 0 then
        [''ID_ATA_FEATURE_SET_AAM=1'',
         ''ID_ATA_FEATURE_SET_AAM_ENABLED='' @
           dec (if cfs_enable_2 drive AND push_bit 9 1 \<noteq> 0 then 1 else 0),
         ''ID_ATA_FEATURE_SET_AAM_VENDOR_RECOMMENDED_VALUE='' @
           dec (unat (drop_bit 8 (acoustic drive))),
         ''ID_ATA_FEATURE_SET_AAM_CURRENT_VALUE='' @ dec (unat (acoustic drive AND 0xff))]
      else [])"

definition export_puis_lines :: "hd_driveid \<Rightarrow> string list" where
  "export_puis_lines drive =
     (if command_set_2 drive AND push_bit 5 1 \<noteq> 0 then
        [''ID_ATA_FEATURE_SET_PUIS=1'',
         ''ID_ATA_FEATURE_SET_PUIS_ENABLED='' @
           dec (if cfs_enable_2 drive AND push_bit 5 1 \<noteq> 0 then 1 else 0)]
      else [])"

definition export_apm_lines :: "hd_driveid \<Rightarrow> string list" where
  "export_apm_lines drive =
     (if command_set_2 drive AND push_bit 3 1 \<noteq> 0 then
        [''ID_ATA_FEATURE_SET_APM=1'',
         ''ID_ATA_FEATURE_SET_APM_ENABLED='' @
           dec (if cfs_enable_2 drive AND push_bit 3 1 \<noteq> 0 then 1 else 0)] @
        (if cfs_enable_2 drive AND push_bit 3 1 \<noteq> 0 then
           [''ID_ATA_FEATURE_SET_APM_CURRENT_VALUE='' @
              dec (unat (CurAPMvalues drive AND 0xff))]
         else [])
      else [])"

definition export_download_microcode_lines :: "hd_driveid \<Rightarrow> string list" where
  "export_download_microcode_lines drive =
     (if command_set_2 drive AND push_bit 0 1 \<noteq> 0 then [''ID_ATA_DOWNLOAD_MICROCODE=1'']
      else [])"

definition export_feature_lines :: "hd_driveid \<Rightarrow> string list" where
  "export_feature_lines drive =
     export_write_cache_lines drive @
     export_hpa_lines drive @
     export_pm_lines drive @
     export_security_lines drive @
     export_smart_lines drive @
     export_aam_lines drive @
     export_puis_lines drive @
     export_apm_lines drive @
     export_download_microcode_lines drive"

text \<open>Lines 595--609: \<^verbatim>\<open>word = identify.wyde[76]\<close>, the SATA capabilities.\<close>

definition export_sata_lines :: "16 word \<Rightarrow> string list" where
  "export_sata_lines word =
     (if \<not> (word = 0x0000 \<or> word = 0xffff) then
        [''ID_ATA_SATA=1''] @
        (if word AND push_bit 2 1 \<noteq> 0 then [''ID_ATA_SATA_SIGNAL_RATE_GEN2=1''] else []) @
        (if word AND push_bit 1 1 \<noteq> 0 then [''ID_ATA_SATA_SIGNAL_RATE_GEN1=1''] else [])
      else [])"

text \<open>Lines 611--616: \<^verbatim>\<open>word = identify.wyde[217]\<close>, the nominal media rotation rate.\<close>

definition export_rotation_lines :: "16 word \<Rightarrow> string list" where
  "export_rotation_lines word =
     (if word = 0x0001 then [''ID_ATA_ROTATION_RATE_RPM=0'']
      else if word \<ge> 0x0401 \<and> word \<le> 0xfffe then
        [''ID_ATA_ROTATION_RATE_RPM='' @ dec (unat word)]
      else [])"

text \<open>
  Lines 623--637: the World Wide Name, assembled in a \<^verbatim>\<open>uint64_t\<close> by shifting left
  16 bits and or-ing in the next word.
\<close>

definition export_wwn_lines :: "(nat \<Rightarrow> 16 word) \<Rightarrow> string list" where
  "export_wwn_lines wyde =
     (let word = wyde 108
      in if word AND 0xf000 = 0x5000 then
           (let wwwn0 = (ucast (wyde 108) :: 64 word);
                wwwn1 = push_bit 16 wwwn0;
                wwwn2 = wwwn1 OR ucast (wyde 109);
                wwwn3 = push_bit 16 wwwn2;
                wwwn4 = wwwn3 OR ucast (wyde 110);
                wwwn5 = push_bit 16 wwwn4;
                wwwn = wwwn5 OR ucast (wyde 111)
            in [''ID_WWN=0x'' @ hex (unat wwwn),
                ''ID_WWN_WITH_EXTENSION=0x'' @ hex (unat wwwn)])
         else [])"

text \<open>Lines 639--642: CompactFlash.\<close>

definition export_cfa_lines :: "(nat \<Rightarrow> 16 word) \<Rightarrow> string list" where
  "export_cfa_lines wyde =
     (if (wyde 0 = 0x848a \<or> wyde 0 = 0x844a) \<or> (wyde 83 AND 0xc004) = 0x4004 then
        [''ID_ATA_CFA=1'']
      else [])"

text \<open>The export branch of \<^verbatim>\<open>main\<close>, the plain branch (lines 644--647), and both.\<close>

definition main_export_lines ::
  "hd_driveid \<Rightarrow> (nat \<Rightarrow> 16 word) \<Rightarrow> string \<Rightarrow> string \<Rightarrow> string \<Rightarrow> string \<Rightarrow> string list" where
  "main_export_lines drive wyde model model_enc revision serial =
     export_type_lines drive @
     export_string_lines model model_enc revision serial @
     export_feature_lines drive @
     export_sata_lines (wyde 76) @
     export_rotation_lines (wyde 217) @
     export_wwn_lines wyde @
     export_cfa_lines wyde"

definition main_plain_lines :: "string \<Rightarrow> string \<Rightarrow> string list" where
  "main_plain_lines model serial =
     (if serial \<noteq> [] then [model @ ''_'' @ serial] else [model])"

definition main_print ::
  "bool \<Rightarrow> hd_driveid \<Rightarrow> (nat \<Rightarrow> 16 word) \<Rightarrow> string \<Rightarrow> string \<Rightarrow> string \<Rightarrow> string \<Rightarrow> string list" where
  "main_print export drive wyde model model_enc revision serial =
     (if export then main_export_lines drive wyde model model_enc revision serial
      else main_plain_lines model serial)"

subsection \<open>Notions used to state the properties\<close>

text \<open>
  The sense buffer a command function ends with is the zeroed 32-byte array overwritten by
  the sense bytes of each reply, in submission order.  A submission has reported success
  when the last \<^verbatim>\<open>ioctl\<close> of the trace returned 0.
\<close>

definition sense_after :: "device \<Rightarrow> sg_request list \<Rightarrow> byte list" where
  "sense_after dev t = foldl (\<lambda>s rq. store_bytes (io_sense (dev rq)) s) (replicate 32 0) t"

definition submission_ok :: "device \<Rightarrow> sg_request list \<Rightarrow> bool" where
  "submission_ok dev t = (io_ret (dev (last t)) = 0)"

text \<open>
  An example device: it answers INQUIRY (operation code \<open>0x12\<close>) with the given data,
  and any other command with the given data and sense bytes; every \<^verbatim>\<open>ioctl\<close> succeeds.
\<close>

definition dev_example :: "byte list \<Rightarrow> byte list \<Rightarrow> byte list \<Rightarrow> device" where
  "dev_example inquiry_data identify_data identify_sense rq =
     (if hd (sg_cdb rq) = 0x12 then
        \<lparr>io_ret = 0, io_errno = 0, io_data = inquiry_data, io_sense = [],
         io_status = 0, io_transport_status = 0, io_driver_status = 0\<rparr>
      else
        \<lparr>io_ret = 0, io_errno = 0, io_data = identify_data,
         io_sense = identify_sense,
         io_status = 0, io_transport_status = 0, io_driver_status = 0\<rparr>)"

definition sense_descriptor_ok :: "byte list" where
  "sense_descriptor_ok = [0x72, 0, 0, 0, 0, 0, 0, 0, 0x09, 0x0c]"

definition sense_fixed_ok :: "byte list" where
  "sense_fixed_ok = [0x70, 0, 0, 0, 0, 0, 0, 0, 0, 0, 0, 0, 0x00, 0x1d]"

text \<open>
  The key of an output line is what precedes its first \<open>=\<close>; \<open>lines_with_keys\<close> are the
  lines of an output whose key is one of the given keys, in output order.
\<close>

definition key_of :: "string \<Rightarrow> string" where
  "key_of l = takeWhile (\<lambda>c. c \<noteq> CHR ''='') l"

definition lines_with_keys :: "string list \<Rightarrow> string list \<Rightarrow> string list" where
  "lines_with_keys ks out = filter (\<lambda>l. key_of l \<in> set ks) out"

text \<open>
  A feature flag reported together with its enabled state: the line \<open>KEY=1\<close> followed by
  \<open>KEY_ENABLED=b\<close>, where \<open>b\<close> is the bit of the enabled word at the same position; nothing
  when the support bit is clear.
\<close>

definition flag_report :: "string \<Rightarrow> 16 word \<Rightarrow> 16 word \<Rightarrow> nat \<Rightarrow> string list" where
  "flag_report key supported enabled n =
     (if bit supported n then
        [key @ ''=1'', key @ ''_ENABLED='' @ (if bit enabled n then ''1'' else ''0'')]
      else [])"

text \<open>
  The rotation rate in the words of the specification: value 1 is 0 RPM, a value in
  \<open>[0x0401, 0xFFFE]\<close> is that many RPM, any other value is not reported.
\<close>

definition rotation_rate_rpm :: "16 word \<Rightarrow> nat option" where
  "rotation_rate_rpm w =
     (if unat w = 1 then Some 0
      else if 0x0401 \<le> unat w \<and> unat w \<le> 0xFFFE then Some (unat w)
      else None)"

text \<open>
  The World Wide Name in the words of the specification: present when the top 4 bits of word
  108 are \<open>0x5\<close>, and then the concatenation of words 108 to 111, most significant first.
\<close>

definition wwn_value :: "(nat \<Rightarrow> 16 word) \<Rightarrow> nat option" where
  "wwn_value wyde =
     (if unat (wyde 108) div 2 ^ 12 = 5 then
        Some (unat (wyde 108) * 2 ^ 48 + unat (wyde 109) * 2 ^ 32 +
              unat (wyde 110) * 2 ^ 16 + unat (wyde 111))
      else None)"

text \<open>An example drive: only the four command-set words are set.\<close>

definition drive_example :: "16 word \<Rightarrow> 16 word \<Rightarrow> 16 word \<Rightarrow> 16 word \<Rightarrow> hd_driveid" where
  "drive_example cs1 en1 cs2 en2 =
     \<lparr>config = 0, command_set_1 = cs1, command_set_2 = cs2, cfs_enable_1 = en1,
      cfs_enable_2 = en2, trseuc = 0, trsEuc = 0, CurAPMvalues = 0, acoustic = 0, dlf = 0\<rparr>"

section \<open>Verification\<close>

subsection \<open>The string loop\<close>

lemma ucast_byte_roundtrip: "(ucast (ucast (b::8 word) :: 32 word) :: 8 word) = b"
  by (rule bit_word_eqI) (simp add: bit_simps)

lemma unat_minus2: "unat (l::64 word) = 2 * Suc n \<Longrightarrow> unat (l - 2) = 2 * n"
  by (simp add: unat_sub_if_size)

lemma odd_minus2: "odd (unat (l::64 word)) \<Longrightarrow> odd (unat (l - 2))"
  by (metis (no_types, lifting) add.right_neutral dvd_diff_left_iff
    even_numeral even_of_nat unsigned_0 word_arith_nat_add)

lemma loop_even:
  "unat len = 2 * n \<Longrightarrow>
   get_string_loop m identify ow dest len =
     Some (swap_n n m identify ow dest, ow + of_nat n, dest + 2 * n, 0)"
proof (induction n arbitrary: m ow dest len)
  case 0
  then have "len = 0" by (simp add: unat_eq_0)
  then show ?case by (subst get_string_loop.simps) simp
next
  case (Suc n)
  from Suc.prems have pos: "0 < len" by (simp add: word_greater_zero_iff unat_eq_0 [symmetric])
  from Suc.prems have rest: "unat (len - 2) = 2 * n" by (rule unat_minus2)
  show ?case
    apply (subst get_string_loop.simps)
    apply (simp add: pos Let_def ucast_byte_roundtrip Suc.IH [OF rest])
    done
qed

lemma loop_Some_even:
  assumes "get_string_loop m identify ow dest len = Some y"
  shows "even (unat len)"
proof (rule get_string_loop.raw_induct
         [where P = "\<lambda>m identify ow dest len y. even (unat len)", OF _ assms])
  fix loop :: "memory \<Rightarrow> nat \<Rightarrow> 32 word \<Rightarrow> nat \<Rightarrow> 64 word \<Rightarrow> (memory \<times> 32 word \<times> nat \<times> 64 word) option"
  fix m identify ow dest len y
  assume IH: "\<And>m identify ow dest len y. loop m identify ow dest len = Some y \<Longrightarrow> even (unat len)"
  assume body: "(if 0 < len then
        (let c1 = (ucast (m (identify + unat (ow * 2 + 1))) :: 32 word);
             c2 = (ucast (m (identify + unat (ow * 2))) :: 32 word);
             m1 = m(dest := ucast c1);
             dest1 = dest + 1;
             m2 = m1(dest1 := ucast c2);
             dest2 = dest1 + 1
         in loop m2 identify (ow + 1) dest2 (len - 2))
      else Some (m, ow, dest, len)) = Some y"
  show "even (unat len)"
  proof (cases "0 < len")
    case True
    with body obtain m' ow' dest' where "loop m' identify ow' dest' (len - 2) = Some y"
      by (auto simp: Let_def)
    then have "even (unat (len - 2))" by (rule IH)
    then show ?thesis using odd_minus2 by blast
  next
    case False
    then have "len = 0" by (simp add: word_greater_zero_iff)
    then show ?thesis by simp
  qed
qed

lemma swap_n_frame:
  "a < dest \<or> dest + 2 * n \<le> a \<Longrightarrow> swap_n n m identify ow dest a = m a"
  by (induction n arbitrary: m ow dest) auto

lemma swap_pairs_outside:
  "\<not> (base \<le> a \<and> a < base + 2 * n) \<Longrightarrow> swap_pairs base n m a = m a"
  unfolding swap_pairs_def by (rule if_not_P)

lemma swap_pairs_even:
  "base \<le> a \<Longrightarrow> a < base + 2 * n \<Longrightarrow> even (a - base) \<Longrightarrow> swap_pairs base n m a = m (a + 1)"
  by (simp add: swap_pairs_def)

lemma swap_pairs_odd:
  "base \<le> a \<Longrightarrow> a < base + 2 * n \<Longrightarrow> odd (a - base) \<Longrightarrow> swap_pairs base n m a = m (a - 1)"
  by (simp add: swap_pairs_def)

lemma partner_even:
  fixes a :: nat
  assumes "base \<le> a" "a < base + 2 * n" "even (a - base)"
  shows "a + 1 < base + 2 * n \<and> odd (a + 1 - base)"
proof -
  from assms(1) obtain k where k: "a = base + k" by (auto simp: le_iff_add)
  with assms have "even k" "k < 2 * n" by simp_all
  then obtain j where "k = 2 * j" "j < n" by (auto elim: evenE)
  with k show ?thesis by simp
qed

lemma partner_odd:
  fixes a :: nat
  assumes "base \<le> a" "a < base + 2 * n" "odd (a - base)"
  shows "base \<le> a - 1 \<and> even (a - 1 - base) \<and> a - 1 + 1 = a"
proof -
  from assms(1) obtain k where k: "a = base + k" by (auto simp: le_iff_add)
  with assms have "odd k" by simp
  then obtain j where "k = 2 * j + 1" by (auto elim: oddE)
  with k show ?thesis by simp
qed

lemma swap_pairs_involution: "swap_pairs base n (swap_pairs base n m) = m"
proof
  fix a
  show "swap_pairs base n (swap_pairs base n m) a = m a"
  proof (cases "base \<le> a \<and> a < base + 2 * n")
    case False
    show ?thesis by (simp only: swap_pairs_outside [OF False])
  next
    case inside: True
    show ?thesis
    proof (cases "even (a - base)")
      case True
      with inside partner_even [of base a n]
      have "base \<le> a + 1" "a + 1 < base + 2 * n" "odd (a + 1 - base)" by simp_all
      then have "swap_pairs base n m (a + 1) = m (a + 1 - 1)" by (rule swap_pairs_odd)
      moreover have "swap_pairs base n (swap_pairs base n m) a = swap_pairs base n m (a + 1)"
        using inside True by (simp add: swap_pairs_even)
      ultimately show ?thesis by simp
    next
      case False
      with inside partner_odd [of base a n]
      have p: "base \<le> a - 1" "a - 1 < base + 2 * n" "even (a - 1 - base)" and q: "a - 1 + 1 = a"
        by simp_all
      have "swap_pairs base n m (a - 1) = m (a - 1 + 1)" using p by (rule swap_pairs_even)
      then have "swap_pairs base n m (a - 1) = m a" by (simp only: q)
      moreover have "swap_pairs base n (swap_pairs base n m) a = swap_pairs base n m (a - 1)"
        using inside False by (simp add: swap_pairs_odd)
      ultimately show ?thesis by simp
    qed
  qed
qed

lemma swap_pairs_step:
  fixes d :: nat
  shows "swap_pairs (d + 2) n (m(d := m (d + 1), d + 1 := m d)) = swap_pairs d (Suc n) m"
proof
  fix a
  let ?m' = "m(d := m (d + 1), d + 1 := m d)"
  consider "a < d" | "a = d" | "a = d + 1" | "d + 2 \<le> a" by linarith
  then show "swap_pairs (d + 2) n ?m' a = swap_pairs d (Suc n) m a"
  proof cases
    case 1
    then show ?thesis by (simp add: swap_pairs_outside)
  next
    case 2
    then show ?thesis by (simp add: swap_pairs_outside swap_pairs_even)
  next
    case 3
    then show ?thesis by (simp add: swap_pairs_outside swap_pairs_odd)
  next
    case 4
    show ?thesis
    proof (cases "a < d + 2 + 2 * n")
      case False
      with 4 show ?thesis by (simp add: swap_pairs_outside)
    next
      case inside: True
      from 4 have ne: "a \<noteq> d" "a \<noteq> d + 1" "a + 1 \<noteq> d" "a + 1 \<noteq> d + 1" by simp_all
      from 4 have par: "even (a - (d + 2)) = even (a - d)" by simp
      from 4 inside have rng: "d \<le> a" "a < d + 2 * Suc n" by simp_all
      show ?thesis
      proof (cases "even (a - d)")
        case True
        have "swap_pairs (d + 2) n ?m' a = ?m' (a + 1)"
          using 4 inside True par by (simp add: swap_pairs_even)
        moreover have "swap_pairs d (Suc n) m a = m (a + 1)"
          using rng True by (rule swap_pairs_even)
        ultimately show ?thesis using ne by simp
      next
        case False
        have "a \<noteq> d + 2" using False by auto
        with 4 have ne': "a - 1 \<noteq> d" "a - 1 \<noteq> d + 1" by simp_all
        have "swap_pairs (d + 2) n ?m' a = ?m' (a - 1)"
          using 4 inside False par by (simp add: swap_pairs_odd)
        moreover have "swap_pairs d (Suc n) m a = m (a - 1)"
          using rng False by (rule swap_pairs_odd)
        ultimately show ?thesis using ne' by simp
      qed
    qed
  qed
qed

lemma swap_n_inplace:
  "unat ow + n \<le> 256 \<Longrightarrow>
   swap_n n m identify ow (identify + 2 * unat ow) = swap_pairs (identify + 2 * unat ow) n m"
proof (induction n arbitrary: m ow)
  case 0
  show ?case by (rule ext) (simp add: swap_pairs_outside)
next
  case (Suc n)
  from Suc.prems have small: "unat ow < 256" by simp
  have u0: "unat (ow * 2) = 2 * unat ow"
    using small by (simp add: unat_word_ariths)
  have u1: "unat (ow * 2 + 1) = 2 * unat ow + 1"
    using small by (simp add: unat_word_ariths)
  have u2: "unat (ow + 1) = unat ow + 1"
    using small by (simp add: unat_word_ariths)
  let ?d = "identify + 2 * unat ow"
  let ?m' = "m(?d := m (?d + 1), ?d + 1 := m ?d)"
  have d2: "identify + 2 * unat (ow + 1) = ?d + 2" by (simp add: u2)
  have step: "swap_n (Suc n) m identify ow ?d = swap_n n ?m' identify (ow + 1) (?d + 2)"
    by (simp add: u0 u1 add.assoc)
  have "swap_n n ?m' identify (ow + 1) (identify + 2 * unat (ow + 1)) =
            swap_pairs (identify + 2 * unat (ow + 1)) n ?m'"
    using Suc.prems by (intro Suc.IH) (simp add: u2)
  then have ih: "swap_n n ?m' identify (ow + 1) (?d + 2) = swap_pairs (?d + 2) n ?m'"
    by (simp only: d2)
  show ?case by (simp only: step ih swap_pairs_step)
qed


lemma fixup_string_inplace:
  assumes "unat len = 2 * n" "unat ow + n \<le> 256"
  shows "disk_identify_fixup_string m identify ow len =
         Some (swap_pairs (identify + 2 * unat ow) n m)"
proof -
  from assms(2) have "unat ow \<le> 256" by simp
  then have u0: "unat (ow * 2) = 2 * unat ow" by (simp add: unat_word_ariths)
  show ?thesis
    by (simp add: disk_identify_fixup_string_def disk_identify_get_string_def u0
        loop_even [OF assms(1)] swap_n_inplace [OF assms(2)])
qed

text \<open>
  Claim C8.  The byte-pair swap is an involution: for a string field of even byte length
  that lies inside the 512-byte identify block, the in-place fix-up
  (\<^verbatim>\<open>disk_identify_fixup_string\<close>, which runs \<^verbatim>\<open>disk_identify_get_string\<close> with the
  destination aliasing the source) terminates, exchanges the two bytes of every word of the
  field, and applied a second time to the same byte range gives back the original memory.
\<close>

theorem fixup_string_involution:
  assumes "even (unat len)" and "2 * unat offset_words + unat len \<le> 512"
  shows "\<exists>m'. disk_identify_fixup_string m identify offset_words len = Some m' \<and>
              (\<forall>j < unat len div 2.
                 m' (identify + 2 * unat offset_words + 2 * j) =
                   m (identify + 2 * unat offset_words + 2 * j + 1) \<and>
                 m' (identify + 2 * unat offset_words + 2 * j + 1) =
                   m (identify + 2 * unat offset_words + 2 * j)) \<and>
              disk_identify_fixup_string m' identify offset_words len = Some m"
proof -
  from assms(1) obtain n where n: "unat len = 2 * n" by (auto elim: evenE)
  with assms(2) have bound: "unat offset_words + n \<le> 256" by simp
  let ?b = "identify + 2 * unat offset_words"
  let ?m' = "swap_pairs ?b n m"
  have first: "disk_identify_fixup_string m identify offset_words len = Some ?m'"
    using n bound by (rule fixup_string_inplace)
  have second: "disk_identify_fixup_string ?m' identify offset_words len = Some m"
    by (simp add: fixup_string_inplace [OF n bound] swap_pairs_involution)
  have pairs: "?m' (?b + 2 * j) = m (?b + 2 * j + 1) \<and> ?m' (?b + 2 * j + 1) = m (?b + 2 * j)"
    if "j < unat len div 2" for j
  proof -
    from that n have "j < n" by simp
    then have "?m' (?b + 2 * j) = m (?b + 2 * j + 1)"
      by (intro swap_pairs_even) simp_all
    moreover have "?m' (?b + 2 * j + 1) = m (?b + 2 * j + 1 - 1)"
      using \<open>j < n\<close> by (intro swap_pairs_odd) simp_all
    ultimately show ?thesis by simp
  qed
  from first second pairs show ?thesis by blast
qed

theorem fixup_string_involution_witness:
  "even (unat (20 :: 64 word)) \<and> 2 * unat (10 :: 32 word) + unat (20 :: 64 word) \<le> 512 \<and>
   (\<exists>m'. disk_identify_fixup_string (\<lambda>a. of_nat a) 0 10 20 = Some m' \<and>
         m' 20 = 21 \<and> m' 21 = 20 \<and>
         disk_identify_fixup_string m' 0 10 20 = Some (\<lambda>a. of_nat a))"
proof -
  have e: "even (unat (20 :: 64 word))" by simp
  have b: "2 * unat (10 :: 32 word) + unat (20 :: 64 word) \<le> 512" by simp
  from fixup_string_involution [OF e b, of "\<lambda>a. of_nat a" 0]
  obtain m' where m': "disk_identify_fixup_string (\<lambda>a. of_nat a) 0 10 20 = Some m'"
      "\<forall>j < unat (20 :: 64 word) div 2.
                 m' (0 + 2 * unat (10 :: 32 word) + 2 * j) =
                   (of_nat (0 + 2 * unat (10 :: 32 word) + 2 * j + 1)) \<and>
                 m' (0 + 2 * unat (10 :: 32 word) + 2 * j + 1) =
                   (of_nat (0 + 2 * unat (10 :: 32 word) + 2 * j))"
      "disk_identify_fixup_string m' 0 10 20 = Some (\<lambda>a. of_nat a)"
    by blast
  from m'(2) have "m' 20 = 21 \<and> m' 21 = 20" by (auto dest: spec [of _ 0])
  with e b m'(1,3) show ?thesis by blast
qed

lemma swap_n_contents:
  assumes "\<forall>k<n. \<forall>s\<in>{identify + unat ((ow + of_nat k) * 2),
                          identify + unat ((ow + of_nat k) * 2 + 1)}.
              s < dest \<or> dest + 2 * k \<le> s"
  shows "\<forall>k<n. swap_n n m identify ow dest (dest + 2 * k) =
                   m (identify + unat ((ow + of_nat k) * 2 + 1)) \<and>
                swap_n n m identify ow dest (dest + 2 * k + 1) =
                   m (identify + unat ((ow + of_nat k) * 2))"
  using assms
proof (induction n arbitrary: m ow dest)
  case 0
  show ?case by simp
next
  case (Suc n)
  let ?s0 = "\<lambda>k. identify + unat ((ow + of_nat k) * 2)"
  let ?s1 = "\<lambda>k. identify + unat ((ow + of_nat k) * 2 + 1)"
  let ?m' = "m(dest := m (?s1 0), dest + 1 := m (?s0 0))"
  have safe: "(?s0 k < dest \<or> dest + 2 * k \<le> ?s0 k) \<and> (?s1 k < dest \<or> dest + 2 * k \<le> ?s1 k)"
    if "k < Suc n" for k
    using Suc.prems that by blast
  have shift: "ow + 1 + of_nat j = ow + of_nat (Suc j)" for j
    by simp
  have ih: "\<forall>j<n. swap_n n ?m' identify (ow + 1) (dest + 2) (dest + 2 + 2 * j) =
                   ?m' (?s1 (Suc j)) \<and>
                swap_n n ?m' identify (ow + 1) (dest + 2) (dest + 2 + 2 * j + 1) =
                   ?m' (?s0 (Suc j))"
  proof -
    have "\<forall>j<n. \<forall>s\<in>{identify + unat ((ow + 1 + of_nat j) * 2),
                          identify + unat ((ow + 1 + of_nat j) * 2 + 1)}.
              s < dest + 2 \<or> dest + 2 + 2 * j \<le> s"
    proof (intro allI impI ballI)
      fix j s
      assume j: "j < n"
        and s: "s \<in> {identify + unat ((ow + 1 + of_nat j) * 2),
                      identify + unat ((ow + 1 + of_nat j) * 2 + 1)}"
      from j have "Suc j < Suc n" by simp
      from safe [OF this] s show "s < dest + 2 \<or> dest + 2 + 2 * j \<le> s"
        unfolding shift by auto
    qed
    from Suc.IH [OF this, of ?m'] show ?thesis unfolding shift .
  qed
  show ?case
  proof (intro allI impI)
    fix k assume k: "k < Suc n"
    show "swap_n (Suc n) m identify ow dest (dest + 2 * k) = m (?s1 k) \<and>
          swap_n (Suc n) m identify ow dest (dest + 2 * k + 1) = m (?s0 k)"
    proof (cases k)
      case 0
      have "swap_n n ?m' identify (ow + 1) (dest + 2) dest = ?m' dest"
        "swap_n n ?m' identify (ow + 1) (dest + 2) (dest + 1) = ?m' (dest + 1)"
        by (simp_all add: swap_n_frame)
      with 0 show ?thesis by simp
    next
      case (Suc j)
      with k have j: "j < n" by simp
      from safe [OF k] Suc have ne: "?s0 (Suc j) \<noteq> dest" "?s0 (Suc j) \<noteq> dest + 1"
        "?s1 (Suc j) \<noteq> dest" "?s1 (Suc j) \<noteq> dest + 1"
        by auto
      from ih j have "swap_n n ?m' identify (ow + 1) (dest + 2) (dest + 2 + 2 * j) =
                   ?m' (?s1 (Suc j))"
        "swap_n n ?m' identify (ow + 1) (dest + 2) (dest + 2 + 2 * j + 1) = ?m' (?s0 (Suc j))"
        by blast+
      with ne Suc show ?thesis by (simp add: add.assoc)
    qed
  qed
qed

text \<open>
  Claim C10.  For every even \<^verbatim>\<open>dest_len\<close> the loop of \<^verbatim>\<open>disk_identify_get_string\<close>
  terminates with the counter at 0 and the destination pointer advanced by exactly
  \<^verbatim>\<open>dest_len\<close> bytes; no byte outside the destination range is changed; and the
  \<^verbatim>\<open>dest_len\<close> bytes of the destination hold the source words with the two bytes of each
  word exchanged, provided no source byte lies in the part of the destination written by an
  earlier iteration (true of a separate destination and of the in-place fix-up).  For every
  odd \<^verbatim>\<open>dest_len\<close> the unsigned counter steps from 1 past zero and the loop never
  terminates.  The call sites in \<^verbatim>\<open>main\<close> are the three fix-ups with the even lengths 20,
  8 and 40: they terminate and exchange the bytes of 10, 4 and 20 words.
\<close>

theorem get_string_termination:
  "(even (unat dest_len) \<longrightarrow>
      (\<exists>m' ow'. get_string_loop m identify offset_words dest dest_len =
                   Some (m', ow', dest + unat dest_len, 0) \<and>
                 disk_identify_get_string m identify offset_words dest dest_len = Some m' \<and>
                 (\<forall>a. a < dest \<or> dest + unat dest_len \<le> a \<longrightarrow> m' a = m a) \<and>
                 ((\<forall>k < unat dest_len div 2.
                     \<forall>s\<in>{identify + unat ((offset_words + of_nat k) * 2),
                          identify + unat ((offset_words + of_nat k) * 2 + 1)}.
                       s < dest \<or> dest + 2 * k \<le> s) \<longrightarrow>
                  (\<forall>k < unat dest_len div 2.
                     m' (dest + 2 * k) =
                       m (identify + unat ((offset_words + of_nat k) * 2 + 1)) \<and>
                     m' (dest + 2 * k + 1) =
                       m (identify + unat ((offset_words + of_nat k) * 2)))))) \<and>
   (odd (unat dest_len) \<longrightarrow>
      get_string_loop m identify offset_words dest dest_len = None \<and>
      disk_identify_get_string m identify offset_words dest dest_len = None) \<and>
   (main_fixup_strings m identify =
      disk_identify_fixup_string m identify 10 20 \<bind>
        (\<lambda>m1. disk_identify_fixup_string m1 identify 23 8 \<bind>
          (\<lambda>m2. disk_identify_fixup_string m2 identify 27 40)) \<and>
    even (unat (20 :: 64 word)) \<and> even (unat (8 :: 64 word)) \<and> even (unat (40 :: 64 word)) \<and>
    main_fixup_strings m identify =
      Some (swap_pairs (identify + 2 * 27) 20
             (swap_pairs (identify + 2 * 23) 4
               (swap_pairs (identify + 2 * 10) 10 m))))"
proof (intro conjI impI)
  assume "even (unat dest_len)"
  then obtain n where n: "unat dest_len = 2 * n" by (auto elim: evenE)
  let ?m' = "swap_n n m identify offset_words dest"
  have loop: "get_string_loop m identify offset_words dest dest_len =
      Some (?m', offset_words + of_nat n, dest + unat dest_len, 0)"
    by (simp add: loop_even [OF n] n)
  have get: "disk_identify_get_string m identify offset_words dest dest_len = Some ?m'"
    by (simp add: disk_identify_get_string_def loop)
  have frame: "\<forall>a. a < dest \<or> dest + unat dest_len \<le> a \<longrightarrow> ?m' a = m a"
    by (simp add: n swap_n_frame)
  have contents: "(\<forall>k < unat dest_len div 2.
                     \<forall>s\<in>{identify + unat ((offset_words + of_nat k) * 2),
                          identify + unat ((offset_words + of_nat k) * 2 + 1)}.
                       s < dest \<or> dest + 2 * k \<le> s) \<longrightarrow>
                  (\<forall>k < unat dest_len div 2.
                     ?m' (dest + 2 * k) =
                       m (identify + unat ((offset_words + of_nat k) * 2 + 1)) \<and>
                     ?m' (dest + 2 * k + 1) =
                       m (identify + unat ((offset_words + of_nat k) * 2)))"
  proof
    assume "\<forall>k < unat dest_len div 2.
                     \<forall>s\<in>{identify + unat ((offset_words + of_nat k) * 2),
                          identify + unat ((offset_words + of_nat k) * 2 + 1)}.
                       s < dest \<or> dest + 2 * k \<le> s"
    then have "\<forall>k < n. \<forall>s\<in>{identify + unat ((offset_words + of_nat k) * 2),
                          identify + unat ((offset_words + of_nat k) * 2 + 1)}.
                       s < dest \<or> dest + 2 * k \<le> s"
      by (simp add: n)
    from swap_n_contents [OF this, of m]
    show "\<forall>k < unat dest_len div 2.
                     ?m' (dest + 2 * k) =
                       m (identify + unat ((offset_words + of_nat k) * 2 + 1)) \<and>
                     ?m' (dest + 2 * k + 1) =
                       m (identify + unat ((offset_words + of_nat k) * 2))"
      by (simp add: n)
  qed
  from loop get frame contents
  show "\<exists>m' ow'. get_string_loop m identify offset_words dest dest_len =
                   Some (m', ow', dest + unat dest_len, 0) \<and>
                 disk_identify_get_string m identify offset_words dest dest_len = Some m' \<and>
                 (\<forall>a. a < dest \<or> dest + unat dest_len \<le> a \<longrightarrow> m' a = m a) \<and>
                 ((\<forall>k < unat dest_len div 2.
                     \<forall>s\<in>{identify + unat ((offset_words + of_nat k) * 2),
                          identify + unat ((offset_words + of_nat k) * 2 + 1)}.
                       s < dest \<or> dest + 2 * k \<le> s) \<longrightarrow>
                  (\<forall>k < unat dest_len div 2.
                     m' (dest + 2 * k) =
                       m (identify + unat ((offset_words + of_nat k) * 2 + 1)) \<and>
                     m' (dest + 2 * k + 1) =
                       m (identify + unat ((offset_words + of_nat k) * 2))))"
    by blast
next
  assume odd: "odd (unat dest_len)"
  show none: "get_string_loop m identify offset_words dest dest_len = None"
  proof (cases "get_string_loop m identify offset_words dest dest_len")
    case (Some y)
    then have "even (unat dest_len)" by (rule loop_Some_even)
    with odd show ?thesis by simp
  qed simp
  show "disk_identify_get_string m identify offset_words dest dest_len = None"
    by (simp add: disk_identify_get_string_def none)
next
  show "main_fixup_strings m identify =
      disk_identify_fixup_string m identify 10 20 \<bind>
        (\<lambda>m1. disk_identify_fixup_string m1 identify 23 8 \<bind>
          (\<lambda>m2. disk_identify_fixup_string m2 identify 27 40))"
    by (simp add: main_fixup_strings_def)
next
  show "even (unat (20 :: 64 word))" "even (unat (8 :: 64 word))" "even (unat (40 :: 64 word))"
    by simp_all
next
  have a: "unat (20 :: 64 word) = 2 * 10" "unat (10 :: 32 word) + 10 \<le> 256" by simp_all
  have b: "unat (8 :: 64 word) = 2 * 4" "unat (23 :: 32 word) + 4 \<le> 256" by simp_all
  have c: "unat (40 :: 64 word) = 2 * 20" "unat (27 :: 32 word) + 20 \<le> 256" by simp_all
  show "main_fixup_strings m identify =
      Some (swap_pairs (identify + 2 * 27) 20
             (swap_pairs (identify + 2 * 23) 4
               (swap_pairs (identify + 2 * 10) 10 m)))"
    by (simp add: main_fixup_strings_def fixup_string_inplace [OF a]
        fixup_string_inplace [OF b] fixup_string_inplace [OF c])
qed

theorem get_string_termination_witness:
  "even (unat (4 :: 64 word)) \<and>
   (\<exists>m' ow'. get_string_loop (\<lambda>a. of_nat a) 0 10 8589934592 4 =
                Some (m', ow', 8589934596, 0) \<and>
              m' 8589934592 = 21 \<and> m' 8589934593 = 20 \<and>
              m' 8589934594 = 23 \<and> m' 8589934595 = 22 \<and> m' 20 = 20) \<and>
   odd (unat (3 :: 64 word)) \<and>
   disk_identify_get_string (\<lambda>a. of_nat a) 0 10 8589934592 3 = None"
proof -
  let ?m = "\<lambda>a::nat. of_nat a :: byte"
  let ?dest = "8589934592 :: nat"
  have e: "even (unat (4 :: 64 word))" and o: "odd (unat (3 :: 64 word))" by simp_all
  have far: "\<forall>k < unat (4 :: 64 word) div 2.
                     \<forall>s\<in>{0 + unat (((10 :: 32 word) + of_nat k) * 2),
                          0 + unat (((10 :: 32 word) + of_nat k) * 2 + 1)}.
                       s < ?dest \<or> ?dest + 2 * k \<le> s"
  proof (intro allI impI ballI)
    fix k s
    assume "s \<in> {0 + unat (((10 :: 32 word) + of_nat k) * 2),
                  0 + unat (((10 :: 32 word) + of_nat k) * 2 + 1)}"
    moreover have "unat (((10 :: 32 word) + of_nat k) * 2) < 2 ^ 32"
      "unat (((10 :: 32 word) + of_nat k) * 2 + 1) < 2 ^ 32"
      using unsigned_less [of "((10 :: 32 word) + of_nat k) * 2"]
        unsigned_less [of "((10 :: 32 word) + of_nat k) * 2 + 1"] by simp_all
    ultimately show "s < ?dest \<or> ?dest + 2 * k \<le> s" by auto
  qed
  from get_string_termination [of 4 ?m 0 10 ?dest] e far
  obtain m' ow' where loop: "get_string_loop ?m 0 10 ?dest 4 = Some (m', ow', ?dest + unat (4 :: 64 word), 0)"
    and frame: "\<forall>a. a < ?dest \<or> ?dest + unat (4 :: 64 word) \<le> a \<longrightarrow> m' a = ?m a"
    and cont: "\<forall>k < unat (4 :: 64 word) div 2.
                     m' (?dest + 2 * k) = ?m (0 + unat (((10 :: 32 word) + of_nat k) * 2 + 1)) \<and>
                     m' (?dest + 2 * k + 1) = ?m (0 + unat (((10 :: 32 word) + of_nat k) * 2))"
    by blast
  from cont [rule_format, of 0] cont [rule_format, of 1]
  have c: "m' 8589934592 = 21" "m' 8589934593 = 20" "m' 8589934594 = 23" "m' 8589934595 = 22"
    by simp_all
  from frame [rule_format, of 20] have f: "m' 20 = 20" by simp
  from loop have l: "get_string_loop ?m 0 10 ?dest 4 = Some (m', ow', 8589934596, 0)" by simp
  from get_string_termination [of 3 ?m 0 10 ?dest] o
  have n: "disk_identify_get_string ?m 0 10 ?dest 3 = None" by blast
  from l c f have "\<exists>m' ow'. get_string_loop ?m 0 10 ?dest 4 = Some (m', ow', 8589934596, 0) \<and>
              m' 8589934592 = 21 \<and> m' 8589934593 = 20 \<and>
              m' 8589934594 = 23 \<and> m' 8589934595 = 22 \<and> m' 20 = 20"
    by blast
  with e o n show ?thesis by blast
qed

subsection \<open>Transport and probe sequencing\<close>

lemma length_store_bytes: "length (store_bytes d b) = length b"
  by (simp add: store_bytes_def)

lemma memzero_512: "length b = 512 \<Longrightarrow> memzero b 512 = replicate 512 0"
  by (simp add: memzero_def)

lemma check_nul_bytes_iff:
  "check_nul_bytes out n = (if \<forall>i. n \<le> i \<and> i < 512 \<longrightarrow> out ! i = 0 then 1 else 0)"
proof (induction out n rule: check_nul_bytes.induct)
  case (1 out n)
  show ?case
  proof (cases "n < 512")
    case False
    then show ?thesis by (subst check_nul_bytes.simps) simp
  next
    case lt: True
    show ?thesis
    proof (cases "out ! n = 0")
      case False
      with lt have "\<not> (\<forall>i. n \<le> i \<and> i < 512 \<longrightarrow> out ! i = 0)" by auto
      with lt False show ?thesis by (subst check_nul_bytes.simps) simp
    next
      case True
      have "(\<forall>i. n \<le> i \<and> i < 512 \<longrightarrow> out ! i = 0) = (\<forall>i. n + 1 \<le> i \<and> i < 512 \<longrightarrow> out ! i = 0)"
      proof (intro iffI allI impI)
        fix i assume "\<forall>i. n \<le> i \<and> i < 512 \<longrightarrow> out ! i = 0" "n + 1 \<le> i \<and> i < 512"
        then show "out ! i = 0" by simp
      next
        fix i assume a: "\<forall>i. n + 1 \<le> i \<and> i < 512 \<longrightarrow> out ! i = 0" "n \<le> i \<and> i < 512"
        show "out ! i = 0"
        proof (cases "i = n")
          case True
          with \<open>out ! n = 0\<close> show ?thesis by simp
        next
          case False
          with a(2) have "n + 1 \<le> i \<and> i < 512" by simp
          with a(1) show ?thesis by blast
        qed
      qed
      with lt True 1 show ?thesis by (subst check_nul_bytes.simps) simp
    qed
  qed
qed

lemma check_nul_bytes_0: "(check_nul_bytes out 0 \<noteq> 0) = (\<forall>i<512. out ! i = 0)"
  by (simp add: check_nul_bytes_iff)

lemma inquiry_trace:
  "cmd_trace (disk_scsi_inquiry_command dev e b n) \<noteq> [] \<and>
   (\<forall>rq\<in>set (cmd_trace (disk_scsi_inquiry_command dev e b n)). sg_cdb rq = inquiry_cdb n)"
  by (simp add: disk_scsi_inquiry_command_def Let_def)

lemma identify_trace:
  "cmd_trace (disk_identify_command dev e b n) \<noteq> [] \<and>
   (\<forall>rq\<in>set (cmd_trace (disk_identify_command dev e b n)). sg_cdb rq = identify_cdb)"
  by (simp add: disk_identify_command_def Let_def)

lemma identify_packet_trace:
  "cmd_trace (disk_identify_packet_device_command dev e b n) \<noteq> [] \<and>
   (\<forall>rq\<in>set (cmd_trace (disk_identify_packet_device_command dev e b n)).
      sg_cdb rq = identify_packet_device_cdb)"
  by (simp add: disk_identify_packet_device_command_def Let_def)

lemma cdb_distinct:
  "inquiry_cdb n \<noteq> identify_cdb" "inquiry_cdb n \<noteq> identify_packet_device_cdb"
  "identify_cdb \<noteq> identify_packet_device_cdb"
  by (simp_all add: inquiry_cdb_def identify_cdb_def identify_packet_device_cdb_def)

lemma disk_identify_inquiry_failed:
  "cmd_ret (disk_scsi_inquiry_command dev e inquiry_buf 36) \<noteq> 0 \<Longrightarrow>
   disk_identify dev e inquiry_buf out0 =
     \<lparr>id_ret = cmd_ret (disk_scsi_inquiry_command dev e inquiry_buf 36),
      id_errno = cmd_errno (disk_scsi_inquiry_command dev e inquiry_buf 36),
      out_identify = memzero out0 512, is_packet_device = 0,
      id_trace = cmd_trace (disk_scsi_inquiry_command dev e inquiry_buf 36)\<rparr>"
  by (simp add: disk_identify_def Let_def)

lemma disk_identify_rejected:
  assumes "cmd_ret (disk_scsi_inquiry_command dev e inquiry_buf 36) = 0"
    and "(cmd_buf (disk_scsi_inquiry_command dev e inquiry_buf 36) ! 0) AND 0x1f \<noteq> 0x05"
    and "(cmd_buf (disk_scsi_inquiry_command dev e inquiry_buf 36) ! 0) AND 0x1f \<noteq> 0x00"
    and "(cmd_buf (disk_scsi_inquiry_command dev e inquiry_buf 36) ! 0) AND 0x1f \<noteq> 0x14"
  shows "disk_identify dev e inquiry_buf out0 =
     \<lparr>id_ret = - 1, id_errno = EIO, out_identify = memzero out0 512, is_packet_device = 0,
      id_trace = cmd_trace (disk_scsi_inquiry_command dev e inquiry_buf 36)\<rparr>"
  using assms by (simp add: disk_identify_def Let_def)

lemma disk_identify_packet:
  assumes "cmd_ret (disk_scsi_inquiry_command dev e inquiry_buf 36) = 0"
    and "(cmd_buf (disk_scsi_inquiry_command dev e inquiry_buf 36) ! 0) AND 0x1f = 0x05"
  shows "disk_identify dev e inquiry_buf out0 =
     (let inq = disk_scsi_inquiry_command dev e inquiry_buf 36;
          c = disk_identify_packet_device_command dev (cmd_errno inq) (memzero out0 512) 512
      in if \<forall>i<512. cmd_buf c ! i = 0 then
           \<lparr>id_ret = - 1, id_errno = EIO, out_identify = cmd_buf c, is_packet_device = 1,
            id_trace = cmd_trace inq @ cmd_trace c\<rparr>
         else
           \<lparr>id_ret = cmd_ret c, id_errno = cmd_errno c, out_identify = cmd_buf c,
            is_packet_device = 1, id_trace = cmd_trace inq @ cmd_trace c\<rparr>)"
  using assms by (simp add: disk_identify_def Let_def check_nul_bytes_0)

lemma disk_identify_ata:
  assumes "cmd_ret (disk_scsi_inquiry_command dev e inquiry_buf 36) = 0"
    and "(cmd_buf (disk_scsi_inquiry_command dev e inquiry_buf 36) ! 0) AND 0x1f = 0x00 \<or>
         (cmd_buf (disk_scsi_inquiry_command dev e inquiry_buf 36) ! 0) AND 0x1f = 0x14"
  shows "disk_identify dev e inquiry_buf out0 =
     (let inq = disk_scsi_inquiry_command dev e inquiry_buf 36;
          c = disk_identify_command dev (cmd_errno inq) (memzero out0 512) 512
      in if cmd_ret c \<noteq> 0 then
           \<lparr>id_ret = cmd_ret c, id_errno = cmd_errno c, out_identify = cmd_buf c,
            is_packet_device = 0, id_trace = cmd_trace inq @ cmd_trace c\<rparr>
         else if \<forall>i<512. cmd_buf c ! i = 0 then
           \<lparr>id_ret = - 1, id_errno = EIO, out_identify = cmd_buf c, is_packet_device = 0,
            id_trace = cmd_trace inq @ cmd_trace c\<rparr>
         else
           \<lparr>id_ret = cmd_ret c, id_errno = cmd_errno c, out_identify = cmd_buf c,
            is_packet_device = 0, id_trace = cmd_trace inq @ cmd_trace c\<rparr>)"
  using assms by (auto simp add: disk_identify_def Let_def check_nul_bytes_0)

lemma hd_cdb [simp]:
  "hd (inquiry_cdb n) = 0x12" "hd identify_cdb = 0xa1" "hd identify_packet_device_cdb = 0x85"
  by (simp_all add: inquiry_cdb_def identify_cdb_def identify_packet_device_cdb_def)

lemma inquiry_example:
  "disk_scsi_inquiry_command (dev_example inq_data ident_data ident_sense) e b 36 =
     \<lparr>cmd_ret = 0, cmd_errno = e, cmd_buf = store_bytes (take 36 inq_data) b,
      cmd_sense = replicate 32 0,
      cmd_trace = [\<lparr>sg_version = SG_V4, sg_cdb = inquiry_cdb 36, sg_din_xfer_len = 36, sg_din = b\<rparr>]\<rparr>"
  by (simp add: disk_scsi_inquiry_command_def dev_example_def Let_def store_bytes_def)

lemma identify_example:
  "cmd_ret (disk_identify_command (dev_example inq_data ident_data sense_fixed_ok) e b 512) = 0"
  "cmd_ret (disk_identify_command (dev_example inq_data ident_data sense_descriptor_ok) e b 512) = 0"
  "cmd_buf (disk_identify_command (dev_example inq_data ident_data ident_sense) e b 512) =
     store_bytes (take 512 ident_data) b"
  "cmd_trace (disk_identify_command (dev_example inq_data ident_data ident_sense) e b 512) =
     [\<lparr>sg_version = SG_V4, sg_cdb = identify_cdb, sg_din_xfer_len = 512, sg_din = b\<rparr>]"
  by (simp_all add: disk_identify_command_def dev_example_def Let_def store_bytes_def
      sense_fixed_ok_def sense_descriptor_ok_def)

lemma identify_packet_example:
  "cmd_ret (disk_identify_packet_device_command
      (dev_example inq_data ident_data sense_fixed_ok) e b 512) = - 1"
  "cmd_errno (disk_identify_packet_device_command
      (dev_example inq_data ident_data sense_fixed_ok) e b 512) = EIO"
  "cmd_ret (disk_identify_packet_device_command
      (dev_example inq_data ident_data sense_descriptor_ok) e b 512) = 0"
  "cmd_buf (disk_identify_packet_device_command
      (dev_example inq_data ident_data ident_sense) e b 512) = store_bytes (take 512 ident_data) b"
  "cmd_trace (disk_identify_packet_device_command
      (dev_example inq_data ident_data ident_sense) e b 512) =
     [\<lparr>sg_version = SG_V4, sg_cdb = identify_packet_device_cdb, sg_din_xfer_len = 512,
       sg_din = b\<rparr>]"
  by (simp_all add: disk_identify_packet_device_command_def dev_example_def Let_def
      store_bytes_def sense_fixed_ok_def sense_descriptor_ok_def)

text \<open>
  Claim C3.  For both IDENTIFY-class commands, success is declared only when the sense data
  the submission returned has an accepted encoding, even though the \<^verbatim>\<open>ioctl\<close> reported
  success: \<^verbatim>\<open>disk_identify_command\<close> returns 0 exactly when the submission succeeded
  and the sense data is in the descriptor format or in the fixed format;
  \<^verbatim>\<open>disk_identify_packet_device_command\<close> returns 0 exactly when the submission
  succeeded and the sense data is in the descriptor format; a successful submission with any
  other sense data returns -1 with \<^verbatim>\<open>errno = EIO\<close>.  (When the submission itself fails
  the sense check is not reached: the function returns what the \<^verbatim>\<open>ioctl\<close> returned.)
\<close>

theorem identify_sense_validation:
  "(let R = disk_identify_command dev e b n
    in cmd_sense R = sense_after dev (cmd_trace R) \<and>
       (cmd_ret R = 0 \<longleftrightarrow>
          submission_ok dev (cmd_trace R) \<and>
          (sense_descriptor_format (cmd_sense R) \<or> sense_fixed_format (cmd_sense R))) \<and>
       (submission_ok dev (cmd_trace R) \<and>
        \<not> (sense_descriptor_format (cmd_sense R) \<or> sense_fixed_format (cmd_sense R)) \<longrightarrow>
          cmd_ret R = - 1 \<and> cmd_errno R = EIO) \<and>
       (\<not> submission_ok dev (cmd_trace R) \<longrightarrow>
          cmd_ret R = io_ret (dev (last (cmd_trace R))) \<and>
          cmd_errno R = io_errno (dev (last (cmd_trace R))))) \<and>
   (let P = disk_identify_packet_device_command dev e b n
    in cmd_sense P = sense_after dev (cmd_trace P) \<and>
       (cmd_ret P = 0 \<longleftrightarrow>
          submission_ok dev (cmd_trace P) \<and> sense_descriptor_format (cmd_sense P)) \<and>
       (submission_ok dev (cmd_trace P) \<and> \<not> sense_descriptor_format (cmd_sense P) \<longrightarrow>
          cmd_ret P = - 1 \<and> cmd_errno P = EIO) \<and>
       (\<not> submission_ok dev (cmd_trace P) \<longrightarrow>
          cmd_ret P = io_ret (dev (last (cmd_trace P))) \<and>
          cmd_errno P = io_errno (dev (last (cmd_trace P)))))"
proof (rule conjI)
  show "let R = disk_identify_command dev e b n
    in cmd_sense R = sense_after dev (cmd_trace R) \<and>
       (cmd_ret R = 0 \<longleftrightarrow>
          submission_ok dev (cmd_trace R) \<and>
          (sense_descriptor_format (cmd_sense R) \<or> sense_fixed_format (cmd_sense R))) \<and>
       (submission_ok dev (cmd_trace R) \<and>
        \<not> (sense_descriptor_format (cmd_sense R) \<or> sense_fixed_format (cmd_sense R)) \<longrightarrow>
          cmd_ret R = - 1 \<and> cmd_errno R = EIO) \<and>
       (\<not> submission_ok dev (cmd_trace R) \<longrightarrow>
          cmd_ret R = io_ret (dev (last (cmd_trace R))) \<and>
          cmd_errno R = io_errno (dev (last (cmd_trace R))))"
    by (simp add: disk_identify_command_def Let_def sense_after_def submission_ok_def
        sense_descriptor_format_def sense_fixed_format_def length_store_bytes)
  show "let P = disk_identify_packet_device_command dev e b n
    in cmd_sense P = sense_after dev (cmd_trace P) \<and>
       (cmd_ret P = 0 \<longleftrightarrow>
          submission_ok dev (cmd_trace P) \<and> sense_descriptor_format (cmd_sense P)) \<and>
       (submission_ok dev (cmd_trace P) \<and> \<not> sense_descriptor_format (cmd_sense P) \<longrightarrow>
          cmd_ret P = - 1 \<and> cmd_errno P = EIO) \<and>
       (\<not> submission_ok dev (cmd_trace P) \<longrightarrow>
          cmd_ret P = io_ret (dev (last (cmd_trace P))) \<and>
          cmd_errno P = io_errno (dev (last (cmd_trace P))))"
    by (simp add: disk_identify_packet_device_command_def Let_def sense_after_def
        submission_ok_def sense_descriptor_format_def length_store_bytes)
qed


theorem identify_sense_validation_witness:
  "submission_ok (dev_example [] [] sense_fixed_ok)
     (cmd_trace (disk_identify_command (dev_example [] [] sense_fixed_ok) 0 (replicate 512 0) 512)) \<and>
   sense_fixed_format
     (cmd_sense (disk_identify_command (dev_example [] [] sense_fixed_ok) 0 (replicate 512 0) 512)) \<and>
   cmd_ret (disk_identify_command (dev_example [] [] sense_fixed_ok) 0 (replicate 512 0) 512) = 0 \<and>
   submission_ok (dev_example [] [] sense_fixed_ok)
     (cmd_trace (disk_identify_packet_device_command (dev_example [] [] sense_fixed_ok) 0
        (replicate 512 0) 512)) \<and>
   \<not> sense_descriptor_format
     (cmd_sense (disk_identify_packet_device_command (dev_example [] [] sense_fixed_ok) 0
        (replicate 512 0) 512)) \<and>
   cmd_ret (disk_identify_packet_device_command (dev_example [] [] sense_fixed_ok) 0
        (replicate 512 0) 512) = - 1 \<and>
   cmd_errno (disk_identify_packet_device_command (dev_example [] [] sense_fixed_ok) 0
        (replicate 512 0) 512) = EIO"
proof -
  let ?dev = "dev_example [] [] sense_fixed_ok"
  let ?R = "disk_identify_command ?dev 0 (replicate 512 0) 512"
  let ?P = "disk_identify_packet_device_command ?dev 0 (replicate 512 0) 512"
  have okR: "submission_ok ?dev (cmd_trace ?R)"
    by (simp add: submission_ok_def identify_example) (simp add: dev_example_def)
  have okP: "submission_ok ?dev (cmd_trace ?P)"
    by (simp add: submission_ok_def identify_packet_example) (simp add: dev_example_def)
  have sR: "sense_after ?dev (cmd_trace ?R) = sense_fixed_ok @ replicate 18 0"
    by (simp add: sense_after_def identify_example)
       (simp add: dev_example_def store_bytes_def sense_fixed_ok_def)
  have sP: "sense_after ?dev (cmd_trace ?P) = sense_fixed_ok @ replicate 18 0"
    by (simp add: sense_after_def identify_packet_example)
       (simp add: dev_example_def store_bytes_def sense_fixed_ok_def)
  have fx: "sense_fixed_format (sense_fixed_ok @ replicate 18 0)"
    "\<not> sense_descriptor_format (sense_fixed_ok @ replicate 18 0)"
    by (simp_all add: sense_fixed_format_def sense_descriptor_format_def sense_fixed_ok_def)
  from identify_sense_validation [of ?dev 0 "replicate 512 0" 512] okR okP sR sP fx
  show ?thesis by (simp add: Let_def)
qed

text \<open>
  Claim C1.  After a successful INQUIRY the sequencer routes on the low 5 bits of the first
  byte of the INQUIRY buffer: type \<open>0x05\<close> submits IDENTIFY PACKET DEVICE (and nothing
  else), types \<open>0x00\<close> and \<open>0x14\<close> submit IDENTIFY DEVICE (and nothing else), and any
  other type submits no further command, fails with -1 and \<^verbatim>\<open>EIO\<close>, and leaves
  \<^verbatim>\<open>main\<close> to the legacy \<^verbatim>\<open>HDIO_GET_IDENTITY\<close> call.
\<close>

theorem peripheral_type_routing:
  assumes "cmd_ret (disk_scsi_inquiry_command dev e inquiry_buf 36) = 0"
  shows "let inq = disk_scsi_inquiry_command dev e inquiry_buf 36;
             D = disk_identify dev e inquiry_buf out0;
             t = (cmd_buf inq ! 0) AND 0x1f
         in (t = 0x05 \<longrightarrow>
               (\<exists>rest. rest \<noteq> [] \<and> id_trace D = cmd_trace inq @ rest \<and>
                       (\<forall>rq\<in>set rest. sg_cdb rq = identify_packet_device_cdb)) \<and>
               is_packet_device D = 1) \<and>
            (t = 0x00 \<or> t = 0x14 \<longrightarrow>
               (\<exists>rest. rest \<noteq> [] \<and> id_trace D = cmd_trace inq @ rest \<and>
                       (\<forall>rq\<in>set rest. sg_cdb rq = identify_cdb)) \<and>
               is_packet_device D = 0) \<and>
            (t \<noteq> 0x05 \<and> t \<noteq> 0x00 \<and> t \<noteq> 0x14 \<longrightarrow>
               id_trace D = cmd_trace inq \<and> id_ret D = - 1 \<and> id_errno D = EIO \<and>
               main_identify dev hdio_ret e inquiry_buf out0 =
                 (if hdio_ret \<noteq> 0 then Exit_2 else Legacy_Identity))"
proof -
  let ?inq = "disk_scsi_inquiry_command dev e inquiry_buf 36"
  let ?D = "disk_identify dev e inquiry_buf out0"
  let ?t = "(cmd_buf ?inq ! 0) AND 0x1f"
  have packet: "(\<exists>rest. rest \<noteq> [] \<and> id_trace ?D = cmd_trace ?inq @ rest \<and>
                       (\<forall>rq\<in>set rest. sg_cdb rq = identify_packet_device_cdb)) \<and>
               is_packet_device ?D = 1" if t: "?t = 0x05"
  proof -
    let ?c = "disk_identify_packet_device_command dev (cmd_errno ?inq) (memzero out0 512) 512"
    have "id_trace ?D = cmd_trace ?inq @ cmd_trace ?c" "is_packet_device ?D = 1"
      by (simp_all add: disk_identify_packet [OF assms t] Let_def)
    with identify_packet_trace [of dev "cmd_errno ?inq" "memzero out0 512" 512]
    show ?thesis by blast
  qed
  have ata: "(\<exists>rest. rest \<noteq> [] \<and> id_trace ?D = cmd_trace ?inq @ rest \<and>
                       (\<forall>rq\<in>set rest. sg_cdb rq = identify_cdb)) \<and>
               is_packet_device ?D = 0" if t: "?t = 0x00 \<or> ?t = 0x14"
  proof -
    let ?c = "disk_identify_command dev (cmd_errno ?inq) (memzero out0 512) 512"
    have "id_trace ?D = cmd_trace ?inq @ cmd_trace ?c" "is_packet_device ?D = 0"
      by (simp_all add: disk_identify_ata [OF assms t] Let_def)
    with identify_trace [of dev "cmd_errno ?inq" "memzero out0 512" 512]
    show ?thesis by blast
  qed
  have rejected: "id_trace ?D = cmd_trace ?inq \<and> id_ret ?D = - 1 \<and> id_errno ?D = EIO \<and>
               main_identify dev hdio_ret e inquiry_buf out0 =
                 (if hdio_ret \<noteq> 0 then Exit_2 else Legacy_Identity)"
    if t: "?t \<noteq> 0x05 \<and> ?t \<noteq> 0x00 \<and> ?t \<noteq> 0x14"
  proof -
    from t have D: "?D = \<lparr>id_ret = - 1, id_errno = EIO, out_identify = memzero out0 512,
        is_packet_device = 0, id_trace = cmd_trace ?inq\<rparr>"
      by (intro disk_identify_rejected assms) simp_all
    show ?thesis by (simp add: main_identify_def D)
  qed
  from packet ata rejected show ?thesis unfolding Let_def by blast
qed

theorem peripheral_type_routing_witness:
  "cmd_ret (disk_scsi_inquiry_command (dev_example [0x85] [1] sense_descriptor_ok) 0
      (replicate 36 0) 36) = 0 \<and>
   is_packet_device (disk_identify (dev_example [0x85] [1] sense_descriptor_ok) 0
      (replicate 36 0) (replicate 512 0)) = 1 \<and>
   cmd_ret (disk_scsi_inquiry_command (dev_example [0x01] [1] sense_descriptor_ok) 0
      (replicate 36 0) 36) = 0 \<and>
   main_identify (dev_example [0x01] [1] sense_descriptor_ok) 0 0 (replicate 36 0)
      (replicate 512 0) = Legacy_Identity"
proof -
  let ?cd = "dev_example [0x85] [1] sense_descriptor_ok"
  let ?tape = "dev_example [0x01] [1] sense_descriptor_ok"
  have ok: "cmd_ret (disk_scsi_inquiry_command ?cd 0 (replicate 36 0) 36) = 0"
    "cmd_ret (disk_scsi_inquiry_command ?tape 0 (replicate 36 0) 36) = 0"
    by (simp_all add: inquiry_example)
  have t: "(cmd_buf (disk_scsi_inquiry_command ?cd 0 (replicate 36 0) 36) ! 0) AND 0x1f = 0x05"
    "(cmd_buf (disk_scsi_inquiry_command ?tape 0 (replicate 36 0) 36) ! 0) AND 0x1f = 0x01"
    by (simp_all add: inquiry_example store_bytes_def)
  from peripheral_type_routing [OF ok(1), of "replicate 512 0" 0] t(1)
  have "is_packet_device (disk_identify ?cd 0 (replicate 36 0) (replicate 512 0)) = 1"
    by (simp add: Let_def)
  moreover from peripheral_type_routing [OF ok(2), of "replicate 512 0" 0] t(2)
  have "main_identify ?tape 0 0 (replicate 36 0) (replicate 512 0) = Legacy_Identity"
    by (simp add: Let_def)
  ultimately show ?thesis using ok by simp
qed
text \<open>
  Claim C2.  Whenever the 512-byte identify block that \<^verbatim>\<open>disk_identify\<close> hands back
  is entirely zero, \<^verbatim>\<open>disk_identify\<close> returns a failure; this holds in particular for
  every probe that issued an IDENTIFY command, also when that command's submission and sense
  check succeeded (as in the witness below, where the device accepts the command and
  transfers nothing).
\<close>

theorem all_nul_identify_fails:
  assumes zero: "\<forall>i<512. out_identify (disk_identify dev e inquiry_buf out0) ! i = 0"
  shows "id_ret (disk_identify dev e inquiry_buf out0) \<noteq> 0"
proof -
  let ?inq = "disk_scsi_inquiry_command dev e inquiry_buf 36"
  let ?D = "disk_identify dev e inquiry_buf out0"
  let ?t = "(cmd_buf ?inq ! 0) AND 0x1f"
  show ?thesis
  proof (cases "cmd_ret ?inq = 0")
    case False
    then show ?thesis by (simp add: disk_identify_inquiry_failed)
  next
    case ok: True
    consider "?t = 0x05" | "?t = 0x00 \<or> ?t = 0x14" | "?t \<noteq> 0x05 \<and> ?t \<noteq> 0x00 \<and> ?t \<noteq> 0x14"
      by blast
    then show ?thesis
    proof cases
      case 1
      from zero show ?thesis
        by (auto simp add: disk_identify_packet [OF ok 1] Let_def split: if_splits)
    next
      case 2
      from zero show ?thesis
        by (auto simp add: disk_identify_ata [OF ok 2] Let_def split: if_splits)
    next
      case 3
      then have "?D = \<lparr>id_ret = - 1, id_errno = EIO, out_identify = memzero out0 512,
        is_packet_device = 0, id_trace = cmd_trace ?inq\<rparr>"
        by (intro disk_identify_rejected ok) simp_all
      then show ?thesis by simp
    qed
  qed
qed

theorem all_nul_identify_fails_witness:
  "out_identify (disk_identify (dev_example [0] [] sense_descriptor_ok) 0
       (replicate 36 0xff) (replicate 512 0xff)) = replicate 512 0 \<and>
   cmd_ret (disk_identify_command (dev_example [0] [] sense_descriptor_ok) 0
       (replicate 512 0) 512) = 0 \<and>
   id_ret (disk_identify (dev_example [0] [] sense_descriptor_ok) 0
       (replicate 36 0xff) (replicate 512 0xff)) \<noteq> 0"
proof -
  let ?dev = "dev_example [0] [] sense_descriptor_ok"
  let ?D = "disk_identify ?dev 0 (replicate 36 0xff) (replicate 512 0xff)"
  have ok: "cmd_ret (disk_scsi_inquiry_command ?dev 0 (replicate 36 0xff) 36) = 0"
    by (simp add: inquiry_example)
  have t: "(cmd_buf (disk_scsi_inquiry_command ?dev 0 (replicate 36 0xff) 36) ! 0) AND 0x1f = 0x00 \<or>
           (cmd_buf (disk_scsi_inquiry_command ?dev 0 (replicate 36 0xff) 36) ! 0) AND 0x1f = 0x14"
    by (simp add: inquiry_example store_bytes_def)
  have out: "out_identify ?D = replicate 512 0"
    by (simp add: disk_identify_ata [OF ok t] Let_def)
       (simp add: inquiry_example identify_example memzero_512 store_bytes_def)
  then have z: "\<forall>i<512. out_identify ?D ! i = 0" by simp
  from all_nul_identify_fails [OF z] out show ?thesis
    by (simp add: identify_example)
qed

lemma identify_command_buf:
  "cmd_buf (disk_identify_command dev e b 512) =
     foldl (\<lambda>b rq. store_bytes (take 512 (io_data (dev rq))) b) b
       (cmd_trace (disk_identify_command dev e b 512))"
  by (simp add: disk_identify_command_def Let_def)

lemma identify_packet_command_buf:
  "cmd_buf (disk_identify_packet_device_command dev e b 512) =
     foldl (\<lambda>b rq. store_bytes (take 512 (io_data (dev rq))) b) b
       (cmd_trace (disk_identify_packet_device_command dev e b 512))"
  by (simp add: disk_identify_packet_device_command_def Let_def)

lemma filter_inquiry_trace:
  "filter (\<lambda>rq. sg_cdb rq \<noteq> inquiry_cdb 36)
     (cmd_trace (disk_scsi_inquiry_command dev e b 36)) = []"
  using inquiry_trace [of dev e b 36] by (simp add: filter_empty_conv)

lemma filter_identify_trace:
  "filter (\<lambda>rq. sg_cdb rq \<noteq> inquiry_cdb 36) (cmd_trace (disk_identify_command dev e b n)) =
     cmd_trace (disk_identify_command dev e b n)"
  using identify_trace [of dev e b n] cdb_distinct(1) [of 36] by (simp add: filter_id_conv)

lemma filter_identify_packet_trace:
  "filter (\<lambda>rq. sg_cdb rq \<noteq> inquiry_cdb 36)
     (cmd_trace (disk_identify_packet_device_command dev e b n)) =
     cmd_trace (disk_identify_packet_device_command dev e b n)"
  using identify_packet_trace [of dev e b n] cdb_distinct(2) [of 36]
  by (simp add: filter_id_conv)

text \<open>
  The identify buffer.  \<^verbatim>\<open>disk_identify\<close> zero-fills the caller's 512-byte array on entry,
  so what the caller gets back does not depend on what the array held before, and it is the
  zero buffer overwritten only by the data that the replies to this call's IDENTIFY
  submissions transferred.
\<close>

lemma identify_buffer_no_stale_content:
  assumes len: "length out0 = 512"
  shows "disk_identify dev e inquiry_buf out0 =
           disk_identify dev e inquiry_buf (replicate 512 0) \<and>
         out_identify (disk_identify dev e inquiry_buf out0) =
           foldl (\<lambda>b rq. store_bytes (take 512 (io_data (dev rq))) b) (replicate 512 0)
             (filter (\<lambda>rq. sg_cdb rq \<noteq> inquiry_cdb 36)
                (id_trace (disk_identify dev e inquiry_buf out0)))"
proof
  show "disk_identify dev e inquiry_buf out0 = disk_identify dev e inquiry_buf (replicate 512 0)"
    by (simp add: disk_identify_def memzero_512 [OF len] memzero_512)
next
  let ?inq = "disk_scsi_inquiry_command dev e inquiry_buf 36"
  let ?D = "disk_identify dev e inquiry_buf out0"
  let ?t = "(cmd_buf ?inq ! 0) AND 0x1f"
  note z = memzero_512 [OF len]
  show "out_identify ?D =
           foldl (\<lambda>b rq. store_bytes (take 512 (io_data (dev rq))) b) (replicate 512 0)
             (filter (\<lambda>rq. sg_cdb rq \<noteq> inquiry_cdb 36) (id_trace ?D))"
  proof (cases "cmd_ret ?inq = 0")
    case False
    then show ?thesis by (simp add: disk_identify_inquiry_failed z filter_inquiry_trace)
  next
    case ok: True
    consider "?t = 0x05" | "?t = 0x00 \<or> ?t = 0x14" | "?t \<noteq> 0x05 \<and> ?t \<noteq> 0x00 \<and> ?t \<noteq> 0x14"
      by blast
    then show ?thesis
    proof cases
      case 1
      let ?c = "disk_identify_packet_device_command dev (cmd_errno ?inq) (replicate 512 0) 512"
      have "out_identify ?D = cmd_buf ?c" "id_trace ?D = cmd_trace ?inq @ cmd_trace ?c"
        by (simp_all add: disk_identify_packet [OF ok 1] Let_def z)
      then show ?thesis
        by (simp add: filter_inquiry_trace filter_identify_packet_trace
            identify_packet_command_buf [symmetric])
    next
      case 2
      let ?c = "disk_identify_command dev (cmd_errno ?inq) (replicate 512 0) 512"
      have "out_identify ?D = cmd_buf ?c" "id_trace ?D = cmd_trace ?inq @ cmd_trace ?c"
        by (simp_all add: disk_identify_ata [OF ok 2] Let_def z)
      then show ?thesis
        by (simp add: filter_inquiry_trace filter_identify_trace identify_command_buf [symmetric])
    next
      case 3
      then have "?D = \<lparr>id_ret = - 1, id_errno = EIO, out_identify = memzero out0 512,
        is_packet_device = 0, id_trace = cmd_trace ?inq\<rparr>"
        by (intro disk_identify_rejected ok) simp_all
      then show ?thesis by (simp add: z filter_inquiry_trace)
    qed
  qed
qed

text \<open>
  Claim C4.  The claim wants every transfer buffer zero-initialised before a transport
  attempt, the 36-byte INQUIRY buffer included, so that stale content cannot become visible.
  The code does so for the identify buffer (above) and not for \<^verbatim>\<open>inquiry_buf\<close>, which
  has no initialiser.  Evaluated on a device whose INQUIRY \<^verbatim>\<open>ioctl\<close> succeeds with all
  status fields zero and transfers no data: the INQUIRY submission is handed the stale stack
  bytes, and the stale first byte \<open>0x05\<close> makes the code send IDENTIFY PACKET DEVICE and
  report a packet device, where a zeroed buffer gives type \<open>0x00\<close> and IDENTIFY DEVICE.
\<close>

theorem inquiry_buffer_not_zeroed:
  "map sg_cdb (id_trace (disk_identify (dev_example [] [] sense_descriptor_ok) 0
      (0x05 # replicate 35 0xAA) (replicate 512 0))) =
     [inquiry_cdb 36, identify_packet_device_cdb] \<and>
   sg_din (hd (id_trace (disk_identify (dev_example [] [] sense_descriptor_ok) 0
      (0x05 # replicate 35 0xAA) (replicate 512 0)))) = 0x05 # replicate 35 0xAA \<and>
   is_packet_device (disk_identify (dev_example [] [] sense_descriptor_ok) 0
      (0x05 # replicate 35 0xAA) (replicate 512 0)) = 1 \<and>
   map sg_cdb (id_trace (disk_identify (dev_example [] [] sense_descriptor_ok) 0
      (replicate 36 0) (replicate 512 0))) = [inquiry_cdb 36, identify_cdb] \<and>
   is_packet_device (disk_identify (dev_example [] [] sense_descriptor_ok) 0
      (replicate 36 0) (replicate 512 0)) = 0"
proof -
  let ?dev = "dev_example [] [] sense_descriptor_ok"
  let ?stale = "0x05 # replicate 35 (0xAA :: byte)"
  have ok: "cmd_ret (disk_scsi_inquiry_command ?dev 0 b 36) = 0" for b
    by (simp add: inquiry_example)
  have t5: "(cmd_buf (disk_scsi_inquiry_command ?dev 0 ?stale 36) ! 0) AND 0x1f = 0x05"
    by (simp add: inquiry_example store_bytes_def)
  have t0: "(cmd_buf (disk_scsi_inquiry_command ?dev 0 (replicate 36 0) 36) ! 0) AND 0x1f = 0x00 \<or>
            (cmd_buf (disk_scsi_inquiry_command ?dev 0 (replicate 36 0) 36) ! 0) AND 0x1f = 0x14"
    by (simp add: inquiry_example store_bytes_def)
  have "id_trace (disk_identify ?dev 0 ?stale (replicate 512 0)) =
     [\<lparr>sg_version = SG_V4, sg_cdb = inquiry_cdb 36, sg_din_xfer_len = 36, sg_din = ?stale\<rparr>,
      \<lparr>sg_version = SG_V4, sg_cdb = identify_packet_device_cdb, sg_din_xfer_len = 512,
        sg_din = replicate 512 0\<rparr>]"
    by (simp add: disk_identify_packet [OF ok t5] Let_def)
       (simp add: inquiry_example identify_packet_example memzero_512)
  moreover have "id_trace (disk_identify ?dev 0 (replicate 36 0) (replicate 512 0)) =
     [\<lparr>sg_version = SG_V4, sg_cdb = inquiry_cdb 36, sg_din_xfer_len = 36,
        sg_din = replicate 36 0\<rparr>,
      \<lparr>sg_version = SG_V4, sg_cdb = identify_cdb, sg_din_xfer_len = 512,
        sg_din = replicate 512 0\<rparr>]"
    by (simp add: disk_identify_ata [OF ok t0] Let_def)
       (simp add: inquiry_example identify_example memzero_512)
  moreover have "is_packet_device (disk_identify ?dev 0 ?stale (replicate 512 0)) = 1"
    by (simp add: disk_identify_packet [OF ok t5] Let_def)
  moreover have "is_packet_device (disk_identify ?dev 0 (replicate 36 0) (replicate 512 0)) = 0"
    by (simp add: disk_identify_ata [OF ok t0] Let_def)
  ultimately show ?thesis by simp
qed

subsection \<open>Classification and export\<close>

lemma lines_with_keys_append:
  "lines_with_keys ks (a @ b) = lines_with_keys ks a @ lines_with_keys ks b"
  by (simp add: lines_with_keys_def)

lemma lines_with_keys_if:
  "lines_with_keys ks (if c then xs else ys) =
     (if c then lines_with_keys ks xs else lines_with_keys ks ys)"
  by simp

lemma lines_with_keys_Nil: "lines_with_keys ks [] = []"
  by (simp add: lines_with_keys_def)

lemma lines_with_keys_Cons:
  "lines_with_keys ks (l # ls) =
     (if key_of l \<in> set ks then l # lines_with_keys ks ls else lines_with_keys ks ls)"
  by (simp add: lines_with_keys_def)

lemma lines_with_keys_empty:
  assumes "list_all (\<lambda>l. key_of l \<in> set K) out" and "set ks \<inter> set K = {}"
  shows "lines_with_keys ks out = []"
  using assms by (auto simp: lines_with_keys_def filter_empty_conv list_all_iff)

lemma list_all_if:
  "list_all P (if c then xs else ys) = (if c then list_all P xs else list_all P ys)"
  by simp

lemmas keys_eval = list_all_if list_all_append list.pred_inject key_of_def Let_def

lemma type_keys:
  "list_all (\<lambda>l. key_of l \<in> set [''ID_ATA'', ''ID_TYPE'', ''ID_BUS'']) (export_type_lines drive)"
  by (simp add: export_type_lines_def keys_eval cong: if_cong split del: if_split)

lemma string_keys:
  "list_all (\<lambda>l. key_of l \<in> set [''ID_MODEL'', ''ID_MODEL_ENC'', ''ID_REVISION'', ''ID_SERIAL'',
                    ''ID_SERIAL_SHORT'']) (export_string_lines model model_enc revision serial)"
  by (simp add: export_string_lines_def keys_eval cong: if_cong split del: if_split)

lemma write_cache_keys:
  "list_all (\<lambda>l. key_of l \<in> set [''ID_ATA_WRITE_CACHE'', ''ID_ATA_WRITE_CACHE_ENABLED'']) (export_write_cache_lines drive)"
  by (simp add: export_write_cache_lines_def keys_eval cong: if_cong split del: if_split)

lemma hpa_keys:
  "list_all (\<lambda>l. key_of l \<in> set [''ID_ATA_FEATURE_SET_HPA'', ''ID_ATA_FEATURE_SET_HPA_ENABLED'']) (export_hpa_lines drive)"
  by (simp add: export_hpa_lines_def keys_eval cong: if_cong split del: if_split)

lemma pm_keys:
  "list_all (\<lambda>l. key_of l \<in> set [''ID_ATA_FEATURE_SET_PM'', ''ID_ATA_FEATURE_SET_PM_ENABLED'']) (export_pm_lines drive)"
  by (simp add: export_pm_lines_def keys_eval cong: if_cong split del: if_split)

lemma security_keys:
  "list_all (\<lambda>l. key_of l \<in> set [''ID_ATA_FEATURE_SET_SECURITY'', ''ID_ATA_FEATURE_SET_SECURITY_ENABLED'',
      ''ID_ATA_FEATURE_SET_SECURITY_ERASE_UNIT_MIN'', ''ID_ATA_FEATURE_SET_SECURITY_LEVEL'',
      ''ID_ATA_FEATURE_SET_SECURITY_ENHANCED_ERASE_UNIT_MIN'',
      ''ID_ATA_FEATURE_SET_SECURITY_EXPIRE'', ''ID_ATA_FEATURE_SET_SECURITY_FROZEN'',
      ''ID_ATA_FEATURE_SET_SECURITY_LOCKED'']) (export_security_lines drive)"
  by (simp add: export_security_lines_def keys_eval cong: if_cong split del: if_split)

lemma smart_keys:
  "list_all (\<lambda>l. key_of l \<in> set [''ID_ATA_FEATURE_SET_SMART'', ''ID_ATA_FEATURE_SET_SMART_ENABLED'']) (export_smart_lines drive)"
  by (simp add: export_smart_lines_def keys_eval cong: if_cong split del: if_split)

lemma aam_keys:
  "list_all (\<lambda>l. key_of l \<in> set [''ID_ATA_FEATURE_SET_AAM'', ''ID_ATA_FEATURE_SET_AAM_ENABLED'',
      ''ID_ATA_FEATURE_SET_AAM_VENDOR_RECOMMENDED_VALUE'',
      ''ID_ATA_FEATURE_SET_AAM_CURRENT_VALUE'']) (export_aam_lines drive)"
  by (simp add: export_aam_lines_def keys_eval cong: if_cong split del: if_split)

lemma puis_keys:
  "list_all (\<lambda>l. key_of l \<in> set [''ID_ATA_FEATURE_SET_PUIS'', ''ID_ATA_FEATURE_SET_PUIS_ENABLED'']) (export_puis_lines drive)"
  by (simp add: export_puis_lines_def keys_eval cong: if_cong split del: if_split)

lemma apm_keys:
  "list_all (\<lambda>l. key_of l \<in> set [''ID_ATA_FEATURE_SET_APM'', ''ID_ATA_FEATURE_SET_APM_ENABLED'',
      ''ID_ATA_FEATURE_SET_APM_CURRENT_VALUE'']) (export_apm_lines drive)"
  by (simp add: export_apm_lines_def keys_eval cong: if_cong split del: if_split)

lemma download_microcode_keys:
  "list_all (\<lambda>l. key_of l \<in> set [''ID_ATA_DOWNLOAD_MICROCODE'']) (export_download_microcode_lines drive)"
  by (simp add: export_download_microcode_lines_def keys_eval cong: if_cong split del: if_split)

lemma sata_keys:
  "list_all (\<lambda>l. key_of l \<in> set [''ID_ATA_SATA'', ''ID_ATA_SATA_SIGNAL_RATE_GEN2'',
      ''ID_ATA_SATA_SIGNAL_RATE_GEN1'']) (export_sata_lines w)"
  by (simp add: export_sata_lines_def keys_eval cong: if_cong split del: if_split)

lemma rotation_keys:
  "list_all (\<lambda>l. key_of l \<in> set [''ID_ATA_ROTATION_RATE_RPM'']) (export_rotation_lines w)"
  by (simp add: export_rotation_lines_def keys_eval cong: if_cong split del: if_split)

lemma wwn_keys:
  "list_all (\<lambda>l. key_of l \<in> set [''ID_WWN'', ''ID_WWN_WITH_EXTENSION'']) (export_wwn_lines wyde)"
  by (simp add: export_wwn_lines_def keys_eval cong: if_cong split del: if_split)

lemma cfa_keys:
  "list_all (\<lambda>l. key_of l \<in> set [''ID_ATA_CFA'']) (export_cfa_lines wyde)"
  by (simp add: export_cfa_lines_def keys_eval cong: if_cong split del: if_split)

lemmas block_empty =
  lines_with_keys_empty [OF type_keys] lines_with_keys_empty [OF string_keys]
  lines_with_keys_empty [OF write_cache_keys] lines_with_keys_empty [OF hpa_keys]
  lines_with_keys_empty [OF pm_keys] lines_with_keys_empty [OF security_keys]
  lines_with_keys_empty [OF smart_keys] lines_with_keys_empty [OF aam_keys]
  lines_with_keys_empty [OF puis_keys] lines_with_keys_empty [OF apm_keys]
  lines_with_keys_empty [OF download_microcode_keys] lines_with_keys_empty [OF sata_keys]
  lines_with_keys_empty [OF rotation_keys] lines_with_keys_empty [OF wwn_keys]
  lines_with_keys_empty [OF cfa_keys]

lemma dec_digit: "dec 0 = ''0''" "dec (Suc 0) = ''1''"
  by (simp_all add: dec.simps)

lemma dec_flag: "dec (if c then 1 else 0) = (if c then ''1'' else ''0'')"
  by (cases c) (simp_all add: dec_digit)

lemma mask_bit: "((w::16 word) AND push_bit n 1 \<noteq> 0) = bit w n"
  by (simp only: bit_iff_and_push_bit_not_eq_0)

lemmas own_block = lines_with_keys_if lines_with_keys_Nil lines_with_keys_Cons
  lines_with_keys_append key_of_def

lemmas other_blocks = main_export_lines_def export_feature_lines_def lines_with_keys_append
  block_empty

lemma write_cache_report:
  "lines_with_keys [''ID_ATA_WRITE_CACHE'', ''ID_ATA_WRITE_CACHE_ENABLED'']
     (main_export_lines drive wyde model model_enc revision serial) =
   flag_report ''ID_ATA_WRITE_CACHE'' (command_set_1 drive) (cfs_enable_1 drive) 5"
proof -
  have "lines_with_keys [''ID_ATA_WRITE_CACHE'', ''ID_ATA_WRITE_CACHE_ENABLED''] (export_write_cache_lines drive) =
        flag_report ''ID_ATA_WRITE_CACHE'' (command_set_1 drive) (cfs_enable_1 drive) 5"
    unfolding export_write_cache_lines_def flag_report_def mask_bit dec_flag
    by (simp add: own_block cong: if_cong split del: if_split)
  then show ?thesis by (simp add: other_blocks)
qed

lemma hpa_report:
  "lines_with_keys [''ID_ATA_FEATURE_SET_HPA'', ''ID_ATA_FEATURE_SET_HPA_ENABLED'']
     (main_export_lines drive wyde model model_enc revision serial) =
   flag_report ''ID_ATA_FEATURE_SET_HPA'' (command_set_1 drive) (cfs_enable_1 drive) 10"
proof -
  have "lines_with_keys [''ID_ATA_FEATURE_SET_HPA'', ''ID_ATA_FEATURE_SET_HPA_ENABLED''] (export_hpa_lines drive) =
        flag_report ''ID_ATA_FEATURE_SET_HPA'' (command_set_1 drive) (cfs_enable_1 drive) 10"
    unfolding export_hpa_lines_def flag_report_def mask_bit dec_flag
    by (simp add: own_block cong: if_cong split del: if_split)
  then show ?thesis by (simp add: other_blocks)
qed

lemma pm_report:
  "lines_with_keys [''ID_ATA_FEATURE_SET_PM'', ''ID_ATA_FEATURE_SET_PM_ENABLED'']
     (main_export_lines drive wyde model model_enc revision serial) =
   flag_report ''ID_ATA_FEATURE_SET_PM'' (command_set_1 drive) (cfs_enable_1 drive) 3"
proof -
  have "lines_with_keys [''ID_ATA_FEATURE_SET_PM'', ''ID_ATA_FEATURE_SET_PM_ENABLED''] (export_pm_lines drive) =
        flag_report ''ID_ATA_FEATURE_SET_PM'' (command_set_1 drive) (cfs_enable_1 drive) 3"
    unfolding export_pm_lines_def flag_report_def mask_bit dec_flag
    by (simp add: own_block cong: if_cong split del: if_split)
  then show ?thesis by (simp add: other_blocks)
qed

lemma security_report:
  "lines_with_keys [''ID_ATA_FEATURE_SET_SECURITY'', ''ID_ATA_FEATURE_SET_SECURITY_ENABLED'']
     (main_export_lines drive wyde model model_enc revision serial) =
   flag_report ''ID_ATA_FEATURE_SET_SECURITY'' (command_set_1 drive) (cfs_enable_1 drive) 1"
proof -
  have "lines_with_keys [''ID_ATA_FEATURE_SET_SECURITY'', ''ID_ATA_FEATURE_SET_SECURITY_ENABLED''] (export_security_lines drive) =
        flag_report ''ID_ATA_FEATURE_SET_SECURITY'' (command_set_1 drive) (cfs_enable_1 drive) 1"
    unfolding export_security_lines_def flag_report_def mask_bit dec_flag
    by (simp add: own_block cong: if_cong split del: if_split)
  then show ?thesis by (simp add: other_blocks)
qed

lemma smart_report:
  "lines_with_keys [''ID_ATA_FEATURE_SET_SMART'', ''ID_ATA_FEATURE_SET_SMART_ENABLED'']
     (main_export_lines drive wyde model model_enc revision serial) =
   flag_report ''ID_ATA_FEATURE_SET_SMART'' (command_set_1 drive) (cfs_enable_1 drive) 0"
proof -
  have "lines_with_keys [''ID_ATA_FEATURE_SET_SMART'', ''ID_ATA_FEATURE_SET_SMART_ENABLED''] (export_smart_lines drive) =
        flag_report ''ID_ATA_FEATURE_SET_SMART'' (command_set_1 drive) (cfs_enable_1 drive) 0"
    unfolding export_smart_lines_def flag_report_def mask_bit dec_flag
    by (simp add: own_block cong: if_cong split del: if_split)
  then show ?thesis by (simp add: other_blocks)
qed

lemma aam_report:
  "lines_with_keys [''ID_ATA_FEATURE_SET_AAM'', ''ID_ATA_FEATURE_SET_AAM_ENABLED'']
     (main_export_lines drive wyde model model_enc revision serial) =
   flag_report ''ID_ATA_FEATURE_SET_AAM'' (command_set_2 drive) (cfs_enable_2 drive) 9"
proof -
  have "lines_with_keys [''ID_ATA_FEATURE_SET_AAM'', ''ID_ATA_FEATURE_SET_AAM_ENABLED''] (export_aam_lines drive) =
        flag_report ''ID_ATA_FEATURE_SET_AAM'' (command_set_2 drive) (cfs_enable_2 drive) 9"
    unfolding export_aam_lines_def flag_report_def mask_bit dec_flag
    by (simp add: own_block cong: if_cong split del: if_split)
  then show ?thesis by (simp add: other_blocks)
qed

lemma puis_report:
  "lines_with_keys [''ID_ATA_FEATURE_SET_PUIS'', ''ID_ATA_FEATURE_SET_PUIS_ENABLED'']
     (main_export_lines drive wyde model model_enc revision serial) =
   flag_report ''ID_ATA_FEATURE_SET_PUIS'' (command_set_2 drive) (cfs_enable_2 drive) 5"
proof -
  have "lines_with_keys [''ID_ATA_FEATURE_SET_PUIS'', ''ID_ATA_FEATURE_SET_PUIS_ENABLED''] (export_puis_lines drive) =
        flag_report ''ID_ATA_FEATURE_SET_PUIS'' (command_set_2 drive) (cfs_enable_2 drive) 5"
    unfolding export_puis_lines_def flag_report_def mask_bit dec_flag
    by (simp add: own_block cong: if_cong split del: if_split)
  then show ?thesis by (simp add: other_blocks)
qed

lemma apm_report:
  "lines_with_keys [''ID_ATA_FEATURE_SET_APM'', ''ID_ATA_FEATURE_SET_APM_ENABLED'']
     (main_export_lines drive wyde model model_enc revision serial) =
   flag_report ''ID_ATA_FEATURE_SET_APM'' (command_set_2 drive) (cfs_enable_2 drive) 3"
proof -
  have "lines_with_keys [''ID_ATA_FEATURE_SET_APM'', ''ID_ATA_FEATURE_SET_APM_ENABLED''] (export_apm_lines drive) =
        flag_report ''ID_ATA_FEATURE_SET_APM'' (command_set_2 drive) (cfs_enable_2 drive) 3"
    unfolding export_apm_lines_def flag_report_def mask_bit dec_flag
    by (simp add: own_block cong: if_cong split del: if_split)
  then show ?thesis by (simp add: other_blocks)
qed

lemma download_microcode_report:
  "lines_with_keys [''ID_ATA_DOWNLOAD_MICROCODE'', ''ID_ATA_DOWNLOAD_MICROCODE_ENABLED'']
     (main_export_lines drive wyde model model_enc revision serial) =
   (if bit (command_set_2 drive) 0 then [''ID_ATA_DOWNLOAD_MICROCODE=1''] else [])"
proof -
  have "lines_with_keys [''ID_ATA_DOWNLOAD_MICROCODE'', ''ID_ATA_DOWNLOAD_MICROCODE_ENABLED'']
          (export_download_microcode_lines drive) =
        (if bit (command_set_2 drive) 0 then [''ID_ATA_DOWNLOAD_MICROCODE=1''] else [])"
    unfolding export_download_microcode_lines_def mask_bit
    by (simp add: own_block cong: if_cong split del: if_split)
  then show ?thesis by (simp add: other_blocks)
qed

lemma f000: "(0xf000 :: 16 word) = NOT (mask 12)"
  by (simp add: mask_eq_exp_minus_1)

lemma and_f000: "(w::16 word) AND 0xf000 = push_bit 12 (drop_bit 12 w)"
  unfolding f000 by (rule bit_word_eqI) (auto simp: bit_simps dest: bit_imp_le_length)

lemma drop_push_nibble: "drop_bit 12 (push_bit 12 (drop_bit 12 (w::16 word))) = drop_bit 12 w"
  by (rule bit_word_eqI) (auto simp: bit_simps dest: bit_imp_le_length)

lemma top_nibble: "((w::16 word) AND 0xf000 = 0x5000) = (unat w div 2 ^ 12 = 5)"
proof -
  have "(w AND 0xf000 = 0x5000) = (drop_bit 12 w = 5)"
  proof
    assume "w AND 0xf000 = 0x5000"
    then have "push_bit 12 (drop_bit 12 w) = 0x5000" by (simp only: and_f000)
    then have "drop_bit 12 (push_bit 12 (drop_bit 12 w)) = drop_bit 12 (0x5000 :: 16 word)"
      by (rule arg_cong)
    then show "drop_bit 12 w = 5" by (simp only: drop_push_nibble) simp
  next
    assume "drop_bit 12 w = 5"
    then have "push_bit 12 (drop_bit 12 w) = push_bit 12 (5 :: 16 word)" by (rule arg_cong)
    then show "w AND 0xf000 = 0x5000" by (simp only: and_f000) simp
  qed
  also have "\<dots> = (unat (drop_bit 12 w) = unat (5 :: 16 word))"
    by (simp only: word_unat_eq_iff)
  also have "\<dots> = (unat w div 2 ^ 12 = 5)"
    by (simp add: unat_drop_bit_eq drop_bit_eq_div unat_div)
  finally show ?thesis .
qed

lemma shift_or_add:
  "push_bit 16 (x::64 word) OR ucast (y::16 word) = x * 2 ^ 16 + of_nat (unat y)"
proof -
  have "push_bit 16 x OR ucast y = push_bit 16 x + ucast y"
    by (rule disjunctive_add [symmetric]) (auto simp: bit_simps dest: bit_imp_le_length)
  then show ?thesis by (simp add: push_bit_eq_mult)
qed

lemma wwn_concat:
  fixes a b c d :: "16 word"
  shows "unat (push_bit 16 (push_bit 16 (push_bit 16 (ucast a :: 64 word) OR ucast b) OR ucast c)
            OR ucast d) =
         unat a * 2 ^ 48 + unat b * 2 ^ 32 + unat c * 2 ^ 16 + unat d"
proof -
  let ?N = "unat a * 2 ^ 48 + unat b * 2 ^ 32 + unat c * 2 ^ 16 + unat d"
  have "unat a < 2 ^ 16" "unat b < 2 ^ 16" "unat c < 2 ^ 16" "unat d < 2 ^ 16"
    using unsigned_less [of a] unsigned_less [of b] unsigned_less [of c] unsigned_less [of d]
    by simp_all
  then have bound: "?N < 2 ^ 64" by simp
  have eq: "push_bit 16 (push_bit 16 (push_bit 16 (ucast a :: 64 word) OR ucast b) OR ucast c)
            OR ucast d = (of_nat ?N :: 64 word)"
    by (simp add: shift_or_add algebra_simps)
  have "unat (of_nat ?N :: 64 word) = ?N mod 2 ^ LENGTH(64)" by (rule unat_of_nat)
  also have "\<dots> = ?N" using bound by simp
  finally show ?thesis unfolding eq .
qed

text \<open>
  Claim C5, as amended.  In export mode, for write cache (bit 5), HPA (bit 10), power
  management (bit 3), security (bit 1) and SMART (bit 0) of \<^verbatim>\<open>command_set_1\<close>, and for
  AAM (bit 9), PUIS (bit 5) and APM (bit 3) of \<^verbatim>\<open>command_set_2\<close>, the lines of the
  output that carry the flag's key or its \<open>_ENABLED\<close> key are exactly: the flag line
  followed by its enabled state, read from the paired enabled word at the same bit, when the
  support bit is set, and nothing otherwise.  For microcode download (bit 0 of
  \<^verbatim>\<open>command_set_2\<close>) the flag line is reported alone: there is no enabled state.
\<close>

theorem feature_flags_reported:
  "(let out = main_export_lines drive wyde model model_enc revision serial
    in lines_with_keys [''ID_ATA_WRITE_CACHE'', ''ID_ATA_WRITE_CACHE_ENABLED''] out =
         flag_report ''ID_ATA_WRITE_CACHE'' (command_set_1 drive) (cfs_enable_1 drive) 5 \<and>
       lines_with_keys [''ID_ATA_FEATURE_SET_HPA'', ''ID_ATA_FEATURE_SET_HPA_ENABLED''] out =
         flag_report ''ID_ATA_FEATURE_SET_HPA'' (command_set_1 drive) (cfs_enable_1 drive) 10 \<and>
       lines_with_keys [''ID_ATA_FEATURE_SET_PM'', ''ID_ATA_FEATURE_SET_PM_ENABLED''] out =
         flag_report ''ID_ATA_FEATURE_SET_PM'' (command_set_1 drive) (cfs_enable_1 drive) 3 \<and>
       lines_with_keys [''ID_ATA_FEATURE_SET_SECURITY'',
           ''ID_ATA_FEATURE_SET_SECURITY_ENABLED''] out =
         flag_report ''ID_ATA_FEATURE_SET_SECURITY'' (command_set_1 drive)
           (cfs_enable_1 drive) 1 \<and>
       lines_with_keys [''ID_ATA_FEATURE_SET_SMART'', ''ID_ATA_FEATURE_SET_SMART_ENABLED''] out =
         flag_report ''ID_ATA_FEATURE_SET_SMART'' (command_set_1 drive) (cfs_enable_1 drive) 0 \<and>
       lines_with_keys [''ID_ATA_FEATURE_SET_AAM'', ''ID_ATA_FEATURE_SET_AAM_ENABLED''] out =
         flag_report ''ID_ATA_FEATURE_SET_AAM'' (command_set_2 drive) (cfs_enable_2 drive) 9 \<and>
       lines_with_keys [''ID_ATA_FEATURE_SET_PUIS'', ''ID_ATA_FEATURE_SET_PUIS_ENABLED''] out =
         flag_report ''ID_ATA_FEATURE_SET_PUIS'' (command_set_2 drive) (cfs_enable_2 drive) 5 \<and>
       lines_with_keys [''ID_ATA_FEATURE_SET_APM'', ''ID_ATA_FEATURE_SET_APM_ENABLED''] out =
         flag_report ''ID_ATA_FEATURE_SET_APM'' (command_set_2 drive) (cfs_enable_2 drive) 3 \<and>
       lines_with_keys [''ID_ATA_DOWNLOAD_MICROCODE'', ''ID_ATA_DOWNLOAD_MICROCODE_ENABLED''] out =
         (if bit (command_set_2 drive) 0 then [''ID_ATA_DOWNLOAD_MICROCODE=1''] else []))"
  unfolding Let_def
  by (intro conjI write_cache_report hpa_report pm_report security_report smart_report
      aam_report puis_report apm_report download_microcode_report)

theorem feature_flags_reported_witness:
  "lines_with_keys [''ID_ATA_WRITE_CACHE'', ''ID_ATA_WRITE_CACHE_ENABLED'']
     (main_export_lines (drive_example 0x20 0x20 0 0) (\<lambda>n. 0) ''M'' ''M'' ''R'' ''S'') =
     [''ID_ATA_WRITE_CACHE=1'', ''ID_ATA_WRITE_CACHE_ENABLED=1''] \<and>
   lines_with_keys [''ID_ATA_FEATURE_SET_APM'', ''ID_ATA_FEATURE_SET_APM_ENABLED'']
     (main_export_lines (drive_example 0 0 0x08 0) (\<lambda>n. 0) ''M'' ''M'' ''R'' ''S'') =
     [''ID_ATA_FEATURE_SET_APM=1'', ''ID_ATA_FEATURE_SET_APM_ENABLED=0'']"
proof -
  let ?d1 = "drive_example 0x20 0x20 0 0"
  let ?d2 = "drive_example 0 0 0x08 0"
  let ?w = "\<lambda>n::nat. 0 :: 16 word"
  note t1 = feature_flags_reported [of ?d1 ?w "''M''" "''M''" "''R''" "''S''", unfolded Let_def]
  note t2 = feature_flags_reported [of ?d2 ?w "''M''" "''M''" "''R''" "''S''", unfolded Let_def]
  have "lines_with_keys [''ID_ATA_WRITE_CACHE'', ''ID_ATA_WRITE_CACHE_ENABLED'']
     (main_export_lines ?d1 ?w ''M'' ''M'' ''R'' ''S'') =
     flag_report ''ID_ATA_WRITE_CACHE'' (command_set_1 ?d1) (cfs_enable_1 ?d1) 5"
    using t1 by (elim conjE)
  also have "\<dots> = [''ID_ATA_WRITE_CACHE=1'', ''ID_ATA_WRITE_CACHE_ENABLED=1'']"
    by (simp add: flag_report_def drive_example_def)
  finally have 1: "lines_with_keys [''ID_ATA_WRITE_CACHE'', ''ID_ATA_WRITE_CACHE_ENABLED'']
     (main_export_lines ?d1 ?w ''M'' ''M'' ''R'' ''S'') =
     [''ID_ATA_WRITE_CACHE=1'', ''ID_ATA_WRITE_CACHE_ENABLED=1'']" .
  have "lines_with_keys [''ID_ATA_FEATURE_SET_APM'', ''ID_ATA_FEATURE_SET_APM_ENABLED'']
     (main_export_lines ?d2 ?w ''M'' ''M'' ''R'' ''S'') =
     flag_report ''ID_ATA_FEATURE_SET_APM'' (command_set_2 ?d2) (cfs_enable_2 ?d2) 3"
    using t2 by (elim conjE)
  also have "\<dots> = [''ID_ATA_FEATURE_SET_APM=1'', ''ID_ATA_FEATURE_SET_APM_ENABLED=0'']"
    by (simp add: flag_report_def drive_example_def)
  finally have 2: "lines_with_keys [''ID_ATA_FEATURE_SET_APM'', ''ID_ATA_FEATURE_SET_APM_ENABLED'']
     (main_export_lines ?d2 ?w ''M'' ''M'' ''R'' ''S'') =
     [''ID_ATA_FEATURE_SET_APM=1'', ''ID_ATA_FEATURE_SET_APM_ENABLED=0'']" .
  from 1 2 show ?thesis by (intro conjI)
qed

text \<open>
  The claim as stated asks for an enabled state for microcode download too.  With the
  support bit and the bit of the enabled word both set, the whole output is the following:
  \<^verbatim>\<open>ID_ATA_DOWNLOAD_MICROCODE=1\<close> is printed and no enabled state with it.
\<close>

theorem download_microcode_no_enabled_state:
  "main_export_lines (drive_example 0 0 0x01 0x01) (\<lambda>n. 0) ''M'' ''M'' ''R'' ''S'' =
     [''ID_ATA=1'', ''ID_TYPE=disk'', ''ID_BUS=ata'', ''ID_MODEL=M'', ''ID_MODEL_ENC=M'',
      ''ID_REVISION=R'', ''ID_SERIAL=M_S'', ''ID_SERIAL_SHORT=S'',
      ''ID_ATA_DOWNLOAD_MICROCODE=1'']"
  by (simp add: main_export_lines_def export_type_lines_def export_string_lines_def
      export_feature_lines_def export_write_cache_lines_def export_hpa_lines_def
      export_pm_lines_def export_security_lines_def export_smart_lines_def
      export_aam_lines_def export_puis_lines_def export_apm_lines_def
      export_download_microcode_lines_def export_sata_lines_def export_rotation_lines_def
      export_wwn_lines_def export_cfa_lines_def drive_example_def)

text \<open>
  Claim C9.  In export mode the lines of the output with one of the three SATA keys are:
  none when word 76 is \<open>0x0000\<close> or \<open>0xFFFF\<close>; otherwise \<^verbatim>\<open>ID_ATA_SATA=1\<close>, then
  the Gen2 line exactly when bit 2 of the word is set, then the Gen1 line exactly when bit 1
  is set.
\<close>

theorem sata_export:
  "lines_with_keys [''ID_ATA_SATA'', ''ID_ATA_SATA_SIGNAL_RATE_GEN2'',
       ''ID_ATA_SATA_SIGNAL_RATE_GEN1'']
     (main_export_lines drive wyde model model_enc revision serial) =
   (if wyde 76 = 0x0000 \<or> wyde 76 = 0xFFFF then []
    else [''ID_ATA_SATA=1''] @
         (if bit (wyde 76) 2 then [''ID_ATA_SATA_SIGNAL_RATE_GEN2=1''] else []) @
         (if bit (wyde 76) 1 then [''ID_ATA_SATA_SIGNAL_RATE_GEN1=1''] else []))"
proof -
  have "lines_with_keys [''ID_ATA_SATA'', ''ID_ATA_SATA_SIGNAL_RATE_GEN2'',
       ''ID_ATA_SATA_SIGNAL_RATE_GEN1''] (export_sata_lines (wyde 76)) =
   (if wyde 76 = 0x0000 \<or> wyde 76 = 0xFFFF then []
    else [''ID_ATA_SATA=1''] @
         (if bit (wyde 76) 2 then [''ID_ATA_SATA_SIGNAL_RATE_GEN2=1''] else []) @
         (if bit (wyde 76) 1 then [''ID_ATA_SATA_SIGNAL_RATE_GEN1=1''] else []))"
    unfolding export_sata_lines_def mask_bit
    by (cases "wyde 76 = 0x0000 \<or> wyde 76 = 0xFFFF")
       (simp_all add: own_block cong: if_cong split del: if_split)
  then show ?thesis by (simp add: other_blocks)
qed

theorem sata_export_witness:
  "lines_with_keys [''ID_ATA_SATA'', ''ID_ATA_SATA_SIGNAL_RATE_GEN2'',
       ''ID_ATA_SATA_SIGNAL_RATE_GEN1'']
     (main_export_lines (drive_example 0 0 0 0) ((\<lambda>n. 0)(76 := 0x0006)) ''M'' ''M'' ''R'' ''S'') =
     [''ID_ATA_SATA=1'', ''ID_ATA_SATA_SIGNAL_RATE_GEN2=1'', ''ID_ATA_SATA_SIGNAL_RATE_GEN1=1''] \<and>
   lines_with_keys [''ID_ATA_SATA'', ''ID_ATA_SATA_SIGNAL_RATE_GEN2'',
       ''ID_ATA_SATA_SIGNAL_RATE_GEN1'']
     (main_export_lines (drive_example 0 0 0 0) ((\<lambda>n. 0)(76 := 0xFFFF)) ''M'' ''M'' ''R'' ''S'') = [] \<and>
   lines_with_keys [''ID_ATA_SATA'', ''ID_ATA_SATA_SIGNAL_RATE_GEN2'',
       ''ID_ATA_SATA_SIGNAL_RATE_GEN1'']
     (main_export_lines (drive_example 0 0 0 0) (\<lambda>n. 0) ''M'' ''M'' ''R'' ''S'') = []"
proof -
  let ?d = "drive_example 0 0 0 0"
  let ?ks = "[''ID_ATA_SATA'', ''ID_ATA_SATA_SIGNAL_RATE_GEN2'', ''ID_ATA_SATA_SIGNAL_RATE_GEN1'']"
  let ?w1 = "(\<lambda>n::nat. 0 :: 16 word)(76 := 0x0006)"
  let ?w2 = "(\<lambda>n::nat. 0 :: 16 word)(76 := 0xFFFF)"
  let ?w3 = "(\<lambda>n::nat. 0 :: 16 word)"
  have "lines_with_keys ?ks (main_export_lines ?d ?w1 ''M'' ''M'' ''R'' ''S'') =
    (if ?w1 76 = 0x0000 \<or> ?w1 76 = 0xFFFF then []
    else [''ID_ATA_SATA=1''] @
         (if bit (?w1 76) 2 then [''ID_ATA_SATA_SIGNAL_RATE_GEN2=1''] else []) @
         (if bit (?w1 76) 1 then [''ID_ATA_SATA_SIGNAL_RATE_GEN1=1''] else []))"
    by (rule sata_export)
  also have "\<dots> = [''ID_ATA_SATA=1'', ''ID_ATA_SATA_SIGNAL_RATE_GEN2=1'',
      ''ID_ATA_SATA_SIGNAL_RATE_GEN1=1'']"
    by simp
  finally have 1: "lines_with_keys ?ks (main_export_lines ?d ?w1 ''M'' ''M'' ''R'' ''S'') =
    [''ID_ATA_SATA=1'', ''ID_ATA_SATA_SIGNAL_RATE_GEN2=1'', ''ID_ATA_SATA_SIGNAL_RATE_GEN1=1'']" .
  have "lines_with_keys ?ks (main_export_lines ?d ?w2 ''M'' ''M'' ''R'' ''S'') =
    (if ?w2 76 = 0x0000 \<or> ?w2 76 = 0xFFFF then []
    else [''ID_ATA_SATA=1''] @
         (if bit (?w2 76) 2 then [''ID_ATA_SATA_SIGNAL_RATE_GEN2=1''] else []) @
         (if bit (?w2 76) 1 then [''ID_ATA_SATA_SIGNAL_RATE_GEN1=1''] else []))"
    by (rule sata_export)
  also have "\<dots> = []" by simp
  finally have 2: "lines_with_keys ?ks (main_export_lines ?d ?w2 ''M'' ''M'' ''R'' ''S'') = []" .
  have "lines_with_keys ?ks (main_export_lines ?d ?w3 ''M'' ''M'' ''R'' ''S'') =
    (if ?w3 76 = 0x0000 \<or> ?w3 76 = 0xFFFF then []
    else [''ID_ATA_SATA=1''] @
         (if bit (?w3 76) 2 then [''ID_ATA_SATA_SIGNAL_RATE_GEN2=1''] else []) @
         (if bit (?w3 76) 1 then [''ID_ATA_SATA_SIGNAL_RATE_GEN1=1''] else []))"
    by (rule sata_export)
  also have "\<dots> = []" by simp
  finally have 3: "lines_with_keys ?ks (main_export_lines ?d ?w3 ''M'' ''M'' ''R'' ''S'') = []" .
  from 1 2 3 show ?thesis by (intro conjI)
qed


text \<open>
  Claim C6.  In export mode the rotation-rate line follows the mapping of word 217: value
  \<open>0x0001\<close> is reported as 0 RPM, a value in \<open>[0x0401, 0xFFFE]\<close> is reported verbatim,
  and for every other value (so for \<open>0x0400\<close> and \<open>0xFFFF\<close>) no rotation-rate line is
  printed.
\<close>

theorem rotation_rate_export:
  "lines_with_keys [''ID_ATA_ROTATION_RATE_RPM'']
     (main_export_lines drive wyde model model_enc revision serial) =
   (case rotation_rate_rpm (wyde 217) of
      None \<Rightarrow> []
    | Some rpm \<Rightarrow> [''ID_ATA_ROTATION_RATE_RPM='' @ dec rpm])"
proof -
  have one: "(w = 1) = (unat w = 1)" for w :: "16 word"
    by (simp add: word_unat_eq_iff)
  have "lines_with_keys [''ID_ATA_ROTATION_RATE_RPM''] (export_rotation_lines (wyde 217)) =
   (case rotation_rate_rpm (wyde 217) of
      None \<Rightarrow> []
    | Some rpm \<Rightarrow> [''ID_ATA_ROTATION_RATE_RPM='' @ dec rpm])"
    by (simp add: export_rotation_lines_def rotation_rate_rpm_def own_block one
        word_le_nat_alt dec_digit)
  then show ?thesis by (simp add: other_blocks)
qed

theorem rotation_rate_export_witness:
  "lines_with_keys [''ID_ATA_ROTATION_RATE_RPM'']
     (main_export_lines (drive_example 0 0 0 0) ((\<lambda>n. 0)(217 := 0x0001)) ''M'' ''M'' ''R'' ''S'') =
     [''ID_ATA_ROTATION_RATE_RPM=0''] \<and>
   lines_with_keys [''ID_ATA_ROTATION_RATE_RPM'']
     (main_export_lines (drive_example 0 0 0 0) ((\<lambda>n. 0)(217 := 0x0400)) ''M'' ''M'' ''R'' ''S'') =
     [] \<and>
   lines_with_keys [''ID_ATA_ROTATION_RATE_RPM'']
     (main_export_lines (drive_example 0 0 0 0) ((\<lambda>n. 0)(217 := 0x0401)) ''M'' ''M'' ''R'' ''S'') =
     [''ID_ATA_ROTATION_RATE_RPM=1025''] \<and>
   lines_with_keys [''ID_ATA_ROTATION_RATE_RPM'']
     (main_export_lines (drive_example 0 0 0 0) ((\<lambda>n. 0)(217 := 0xFFFE)) ''M'' ''M'' ''R'' ''S'') =
     [''ID_ATA_ROTATION_RATE_RPM=65534''] \<and>
   lines_with_keys [''ID_ATA_ROTATION_RATE_RPM'']
     (main_export_lines (drive_example 0 0 0 0) ((\<lambda>n. 0)(217 := 0xFFFF)) ''M'' ''M'' ''R'' ''S'') =
     []"
proof -
  let ?d = "drive_example 0 0 0 0"
  have r: "rotation_rate_rpm 0x0001 = Some 0" "rotation_rate_rpm 0x0400 = None"
    "rotation_rate_rpm 0x0401 = Some 1025" "rotation_rate_rpm 0xFFFE = Some 65534"
    "rotation_rate_rpm 0xFFFF = None"
    by (simp_all add: rotation_rate_rpm_def)
  have d: "dec 0 = ''0''" "dec 1025 = ''1025''" "dec 65534 = ''65534''"
    by (simp_all add: dec.simps)
  have "lines_with_keys [''ID_ATA_ROTATION_RATE_RPM'']
     (main_export_lines ?d ((\<lambda>n. 0)(217 := w)) ''M'' ''M'' ''R'' ''S'') =
     (case rotation_rate_rpm w of None \<Rightarrow> []
      | Some rpm \<Rightarrow> [''ID_ATA_ROTATION_RATE_RPM='' @ dec rpm])" for w
    using rotation_rate_export [of ?d "(\<lambda>n. 0)(217 := w)" "''M''" "''M''" "''R''" "''S''"]
    by (simp only: fun_upd_same)
  then show ?thesis by (simp only: r d option.case append_Cons append_Nil simp_thms)
qed

text \<open>
  Claim C7.  In export mode the WWN lines are printed if and only if the top 4 bits of
  word 108 are \<open>0x5\<close>, and the value printed is the 64-bit concatenation of words 108,
  109, 110, 111, most significant word first; words
  \<open>(0x5001, 0x2233, 0x4455, 0x6677)\<close> give \<open>0x5001223344556677\<close>.
\<close>

theorem wwn_export:
  "lines_with_keys [''ID_WWN'', ''ID_WWN_WITH_EXTENSION'']
     (main_export_lines drive wyde model model_enc revision serial) =
   (case wwn_value wyde of
      None \<Rightarrow> []
    | Some wwn \<Rightarrow> [''ID_WWN=0x'' @ hex wwn, ''ID_WWN_WITH_EXTENSION=0x'' @ hex wwn])"
proof -
  have "lines_with_keys [''ID_WWN'', ''ID_WWN_WITH_EXTENSION''] (export_wwn_lines wyde) =
   (case wwn_value wyde of
      None \<Rightarrow> []
    | Some wwn \<Rightarrow> [''ID_WWN=0x'' @ hex wwn, ''ID_WWN_WITH_EXTENSION=0x'' @ hex wwn])"
    unfolding export_wwn_lines_def Let_def top_nibble wwn_concat wwn_value_def
    by (simp add: own_block)
  then show ?thesis by (simp add: other_blocks)
qed

theorem wwn_export_witness:
  "lines_with_keys [''ID_WWN'', ''ID_WWN_WITH_EXTENSION'']
     (main_export_lines (drive_example 0 0 0 0)
        ((\<lambda>n. 0)(108 := 0x5001, 109 := 0x2233, 110 := 0x4455, 111 := 0x6677))
        ''M'' ''M'' ''R'' ''S'') =
     [''ID_WWN=0x5001223344556677'', ''ID_WWN_WITH_EXTENSION=0x5001223344556677''] \<and>
   lines_with_keys [''ID_WWN'', ''ID_WWN_WITH_EXTENSION'']
     (main_export_lines (drive_example 0 0 0 0)
        ((\<lambda>n. 0)(108 := 0x6001, 109 := 0x2233, 110 := 0x4455, 111 := 0x6677))
        ''M'' ''M'' ''R'' ''S'') = []"
proof -
  let ?d = "drive_example 0 0 0 0"
  let ?w1 = "(\<lambda>n::nat. 0 :: 16 word)(108 := 0x5001, 109 := 0x2233, 110 := 0x4455, 111 := 0x6677)"
  let ?w2 = "(\<lambda>n::nat. 0 :: 16 word)(108 := 0x6001, 109 := 0x2233, 110 := 0x4455, 111 := 0x6677)"
  have v1: "wwn_value ?w1 = Some 0x5001223344556677"
    by (simp add: wwn_value_def)
  have v2: "wwn_value ?w2 = None"
    by (simp add: wwn_value_def)
  have h: "hex 0x5001223344556677 = ''5001223344556677''"
    by (simp add: hex.simps)
  from wwn_export [of ?d ?w1 "''M''" "''M''" "''R''" "''S''"]
  have 1: "lines_with_keys [''ID_WWN'', ''ID_WWN_WITH_EXTENSION'']
     (main_export_lines ?d ?w1 ''M'' ''M'' ''R'' ''S'') =
     [''ID_WWN=0x5001223344556677'', ''ID_WWN_WITH_EXTENSION=0x5001223344556677'']"
    by (simp only: v1 h option.case append_Cons append_Nil)
  from wwn_export [of ?d ?w2 "''M''" "''M''" "''R''" "''S''"]
  have 2: "lines_with_keys [''ID_WWN'', ''ID_WWN_WITH_EXTENSION'']
     (main_export_lines ?d ?w2 ''M'' ''M'' ''R'' ''S'') = []"
    by (simp only: v2 option.case)
  from 1 2 show ?thesis by (intro conjI)
qed

end
